theory Spec2Isabelle
  imports Main "HOL-Library.AList"
begin

section \<open>Callable descriptors\<close>

text \<open>
  The command layer \<^verbatim>\<open>cli.py\<close> handles the analyzer's result as a list of
  descriptors and reads the entry \<^verbatim>\<open>f['name']\<close> of each. The descriptor has the
  fields of the data model (CallableDescriptor, ParameterDescriptor).
\<close>

datatype param_kind =
  PositionalOnly | PositionalOrKeyword | VarPositional | KeywordOnly | VarKeyword

record ParameterDescriptor =
  p_name :: string
  p_kind :: param_kind
  p_annotation :: "string option"
  p_default :: "string option"

record CallableDescriptor =
  name :: string
  parameters :: "ParameterDescriptor list"
  is_async :: bool
  is_method :: bool
  decorators :: "string list"
  docstring :: "string option"
  lineno :: nat

section \<open>The file system seen by the command\<close>

text \<open>
  A path is the list of its components below the root of the file tree, already
  resolved (no \<^verbatim>\<open>.\<close>, no \<^verbatim>\<open>..\<close>, no symbolic link); the empty list is the root
  directory. A node of the tree is a regular file with its text or a directory with
  its entries.
\<close>

type_synonym path = "string list"

datatype node = File string | Dir "(string \<times> node) list"

fun lookup :: "node \<Rightarrow> path \<Rightarrow> node option" where
  "lookup n [] = Some n"
| "lookup (File t) (c # cs) = None"
| "lookup (Dir es) (c # cs) =
     (case map_of es c of None \<Rightarrow> None | Some n \<Rightarrow> lookup n cs)"

fun new_dirs :: "path \<Rightarrow> node" where
  "new_dirs [] = Dir []"
| "new_dirs (c # cs) = Dir [(c, new_dirs cs)]"

text \<open>
  \<^verbatim>\<open>Path.mkdir(parents=True)\<close>: missing ancestors are created, an ancestor that is a
  regular file or a target that exists already is an error.
\<close>

fun mkdir_parents :: "node \<Rightarrow> path \<Rightarrow> string + node" where
  "mkdir_parents n [] = Inl ''FileExistsError''"
| "mkdir_parents (File t) (c # cs) = Inl ''NotADirectoryError''"
| "mkdir_parents (Dir es) (c # cs) =
     (case map_of es c of
        None \<Rightarrow> Inr (Dir (AList.update c (new_dirs cs) es))
      | Some n \<Rightarrow>
          (case mkdir_parents n cs of
             Inl e \<Rightarrow> Inl e
           | Inr n' \<Rightarrow> Inr (Dir (AList.update c n' es))))"

text \<open>
  \<^verbatim>\<open>open(p, "w")\<close> followed by \<^verbatim>\<open>write(text)\<close>: the file is created in an existing
  directory or replaced; a missing parent, a parent that is a regular file and a
  target that is a directory are errors (subclasses of \<^verbatim>\<open>OSError\<close>, which is
  \<^verbatim>\<open>IOError\<close>).
\<close>

fun write_node :: "node \<Rightarrow> path \<Rightarrow> string \<Rightarrow> string + node" where
  "write_node (File t) [] text = Inr (File text)"
| "write_node (Dir es) [] text = Inl ''IsADirectoryError''"
| "write_node (File t) (c # cs) text = Inl ''NotADirectoryError''"
| "write_node (Dir es) (c # cs) text =
     (case map_of es c of
        None \<Rightarrow>
          (if cs = [] then Inr (Dir (AList.update c (File text) es))
           else Inl ''FileNotFoundError'')
      | Some n \<Rightarrow>
          (case write_node n cs text of
             Inl e \<Rightarrow> Inl e
           | Inr n' \<Rightarrow> Inr (Dir (AList.update c n' es))))"

subsection \<open>Names and stems\<close>

text \<open>
  \<^verbatim>\<open>PurePath.name\<close> is the last component (empty for the root), and
  \<^verbatim>\<open>PurePath.stem\<close> cuts the last suffix off it:
  \<^verbatim>\<open>i = name.rfind('.'); name[:i] if 0 < i < len(name) - 1 else name\<close>.
\<close>

fun rfind :: "char \<Rightarrow> string \<Rightarrow> nat option" where
  "rfind c [] = None"
| "rfind c (x # xs) =
     (case rfind c xs of
        Some i \<Rightarrow> Some (Suc i)
      | None \<Rightarrow> if x = c then Some 0 else None)"

definition stem_of_name :: "string \<Rightarrow> string" where
  "stem_of_name n =
     (case rfind (CHR ''.'') n of
        None \<Rightarrow> n
      | Some i \<Rightarrow> if 0 < i \<and> i + 1 < length n then take i n else n)"

definition path_name :: "path \<Rightarrow> string" where
  "path_name p = (if p = [] then [] else last p)"

definition stem :: "path \<Rightarrow> string" where
  "stem p = stem_of_name (path_name p)"

subsection \<open>The world of one run\<close>

datatype colour = RED | YELLOW | GREEN

text \<open>
  One constructor for each line the command prints; the arguments are the values
  interpolated into the source's format string.
\<close>

datatype message =
    SourceNotFound path
  | AnalyzingSource path
  | ErrorParsing string
  | FunctionNotFound string
  | FoundFunctions nat
  | CreatedDirectory path
  | AlreadyExists path
  | SuccessfullyForged path
  | GeneratedTestsFor
  | GeneratedItem string
  | ErrorWriting string

text \<open>
  The calls with an effect outside the command, in the order they are made, and the
  \<^verbatim>\<open>IOError\<close> a write raises, with its text.
\<close>

datatype effect =
    Analyze path
  | Mkdir path
  | Generate path "CallableDescriptor list"
  | OpenWrite path
  | IOErrorRaised path string

text \<open>
  The state of a run: the file tree, the current directory, what the operating
  system refuses beyond what the tree itself forbids, the lines printed so far and
  the calls made so far. \<open>mkdir_refused\<close> and \<open>write_refused\<close> give the error of a
  \<^verbatim>\<open>mkdir\<close> and of an \<^verbatim>\<open>open\<close> that is refused (permissions);
  \<open>write_fails\<close> gives the error of a \<^verbatim>\<open>write\<close> that fails on an open file (a
  full disk) and the number of characters that reached the file before it.
\<close>

record world =
  root :: node
  cwd :: path
  mkdir_refused :: "path \<Rightarrow> string option"
  write_refused :: "path \<Rightarrow> string option"
  write_fails :: "path \<Rightarrow> (string \<times> nat) option"
  stdout :: "(colour option \<times> message) list"
  trace :: "effect list"

definition path_exists :: "world \<Rightarrow> path \<Rightarrow> bool" where
  "path_exists w p = (lookup (root w) p \<noteq> None)"

definition is_file :: "world \<Rightarrow> path \<Rightarrow> bool" where
  "is_file w p = (case lookup (root w) p of Some (File t) \<Rightarrow> True | _ \<Rightarrow> False)"

definition secho :: "colour option \<Rightarrow> message \<Rightarrow> world \<Rightarrow> world" where
  "secho c m w = w\<lparr>stdout := stdout w @ [(c, m)]\<rparr>"

definition echo :: "message \<Rightarrow> world \<Rightarrow> world" where
  "echo m w = secho None m w"

definition echo_if :: "bool \<Rightarrow> message \<Rightarrow> world \<Rightarrow> world" where
  "echo_if b m w = (if b then echo m w else w)"

definition performs :: "effect \<Rightarrow> world \<Rightarrow> world" where
  "performs e w = w\<lparr>trace := trace w @ [e]\<rparr>"

text \<open>\<^verbatim>\<open>p.mkdir(parents=True)\<close>: \<open>Inl\<close> carries the text of the exception raised.\<close>

definition mkdir :: "path \<Rightarrow> world \<Rightarrow> (string \<times> world) + world" where
  "mkdir p w =
     (let w1 = performs (Mkdir p) w in
      case mkdir_refused w1 p of
        Some e \<Rightarrow> Inl (e, w1)
      | None \<Rightarrow>
          (case mkdir_parents (root w1) p of
             Inl e \<Rightarrow> Inl (e, w1)
           | Inr t \<Rightarrow> Inr (w1\<lparr>root := t\<rparr>)))"

text \<open>
  The \<^verbatim>\<open>with open(...) as f: f.write(...)\<close> block: \<open>Inl\<close> carries the text of the
  \<^verbatim>\<open>IOError\<close> and the world in which it was raised. An \<^verbatim>\<open>open\<close> that fails
  leaves the tree as it was. Once the file is open it exists and is truncated, so a
  \<^verbatim>\<open>write\<close> that fails leaves the file with the characters written before the
  error.
\<close>

definition open_write :: "path \<Rightarrow> string \<Rightarrow> world \<Rightarrow> (string \<times> world) + world" where
  "open_write p text w =
     (let w1 = performs (OpenWrite p) w;
          written = (case write_fails w1 p of None \<Rightarrow> text | Some (e, n) \<Rightarrow> take n text)
      in case write_refused w1 p of
           Some e \<Rightarrow> Inl (e, performs (IOErrorRaised p e) w1)
         | None \<Rightarrow>
             (case write_node (root w1) p written of
                Inl e \<Rightarrow> Inl (e, performs (IOErrorRaised p e) w1)
              | Inr t \<Rightarrow>
                  (case write_fails w1 p of
                     None \<Rightarrow> Inr (w1\<lparr>root := t\<rparr>)
                   | Some (e, n) \<Rightarrow> Inl (e, performs (IOErrorRaised p e) (w1\<lparr>root := t\<rparr>)))))"

section \<open>The command \<^verbatim>\<open>forge\<close>\<close>

text \<open>
  The options of \<^verbatim>\<open>ptf forge\<close>. The paths are given resolved; \<open>None\<close> for
  \<open>output_dir\<close> stands for an absent option and for the empty string, which
  \<^verbatim>\<open>if output_dir\<close> treats alike.
\<close>

record forge_args =
  source_file :: path
  function_name :: "string option"
  output_dir :: "path option"
  overwrite :: bool
  verbose :: bool

text \<open>
  How a run ends: the function returns (exit status 0), raises
  \<^verbatim>\<open>typer.Exit(code)\<close>, or lets an exception escape (Python then exits with 1).
\<close>

datatype outcome = Returned | Exit nat | Uncaught string

fun exit_status :: "outcome \<Rightarrow> nat" where
  "exit_status Returned = 0"
| "exit_status (Exit c) = c"
| "exit_status (Uncaught e) = 1"

text \<open>
  The two functions imported from \<^verbatim>\<open>pytest_forger.core\<close> are parameters of the
  command: the analyzer \<^verbatim>\<open>CodeAnalyzer(src_path).extract_functions()\<close>, which reads
  the file tree and returns the descriptors or raises an exception (\<open>Inl\<close> carries
  \<^verbatim>\<open>str(e)\<close>; the command catches every \<^verbatim>\<open>Exception\<close>), and
  \<^verbatim>\<open>generate_test_content\<close>, a pure function of the path and the descriptors
  that returns the text of the test file.
\<close>

type_synonym analyzer = "node \<Rightarrow> path \<Rightarrow> string + CallableDescriptor list"
type_synonym generator = "path \<Rightarrow> CallableDescriptor list \<Rightarrow> string"

text \<open>Python's truth value of an \<^verbatim>\<open>Optional[str]\<close>: \<^verbatim>\<open>None\<close> and \<^verbatim>\<open>""\<close> are false.\<close>

fun truthy :: "string option \<Rightarrow> bool" where
  "truthy None = False"
| "truthy (Some s) = (s \<noteq> [])"

text \<open>
  The local variables \<^verbatim>\<open>out_path\<close>, \<^verbatim>\<open>test_filename\<close> and \<^verbatim>\<open>test_file_path\<close>
  (lines 115 to 125); \<^verbatim>\<open>Path("tests")\<close> is relative to the current directory.
\<close>

definition out_path :: "forge_args \<Rightarrow> world \<Rightarrow> path" where
  "out_path a w = (case output_dir a of Some d \<Rightarrow> d | None \<Rightarrow> cwd w @ [''tests''])"

definition test_filename :: "forge_args \<Rightarrow> string" where
  "test_filename a = ''test_'' @ stem (source_file a) @ ''.py''"

definition test_file_path :: "forge_args \<Rightarrow> world \<Rightarrow> path" where
  "test_file_path a w = out_path a w @ [test_filename a]"

text \<open>Step 3, output directory preparation (lines 114 to 121).\<close>

definition prepare_output_directory ::
  "forge_args \<Rightarrow> world \<Rightarrow> (string \<times> world) + world" where
  "prepare_output_directory a w =
     (if \<not> path_exists w (out_path a w) then
        (case mkdir (out_path a w) w of
           Inl (e, w1) \<Rightarrow> Inl (e, w1)
         | Inr w1 \<Rightarrow> Inr (echo_if (verbose a) (CreatedDirectory (out_path a w)) w1))
      else Inr w)"

text \<open>Step 4, generation and writing (lines 127 to 146).\<close>

definition generate_and_write ::
  "generator \<Rightarrow> forge_args \<Rightarrow> CallableDescriptor list \<Rightarrow> world \<Rightarrow> outcome \<times> world" where
  "generate_and_write generate a functions w =
     (if path_exists w (test_file_path a w) \<and> \<not> overwrite a then
        (Exit 0, secho (Some YELLOW) (AlreadyExists (test_file_path a w)) w)
      else
        (let test_content = generate (source_file a) functions;
             w1 = performs (Generate (source_file a) functions) w
         in case open_write (test_file_path a w) test_content w1 of
              Inr w2 \<Rightarrow>
                (let w3 = secho (Some GREEN) (SuccessfullyForged (test_file_path a w)) w2;
                     w4 = (if verbose a then
                             fold (\<lambda>f. echo (GeneratedItem (name f))) functions
                               (echo GeneratedTestsFor w3)
                           else w3)
                 in (Returned, w4))
            | Inl (e, w2) \<Rightarrow>
                (Exit 1, secho (Some RED) (ErrorWriting e) w2)))"

text \<open>
  Steps 3 and 4 in sequence, for the retained descriptors; an exception of
  \<^verbatim>\<open>mkdir\<close> is not caught by the command.
\<close>

definition forge_output ::
  "generator \<Rightarrow> forge_args \<Rightarrow> CallableDescriptor list \<Rightarrow> world \<Rightarrow> outcome \<times> world" where
  "forge_output generate a functions w =
     (case prepare_output_directory a w of
        Inl (e, w1) \<Rightarrow> (Uncaught e, w1)
      | Inr w1 \<Rightarrow> generate_and_write generate a functions w1)"

text \<open>
  The filter (lines 106 and 107): with a name that is true in Python's sense, the
  descriptors of that name are retained; otherwise all are.
\<close>

definition filter_by_name ::
  "string option \<Rightarrow> CallableDescriptor list \<Rightarrow> CallableDescriptor list" where
  "filter_by_name wanted functions =
     (if truthy wanted then filter (\<lambda>f. Some (name f) = wanted) functions
      else functions)"

text \<open>The command (lines 55 to 146): steps 1 and 2 and the filter, then the output.\<close>

definition forge ::
  "analyzer \<Rightarrow> generator \<Rightarrow> forge_args \<Rightarrow> world \<Rightarrow> outcome \<times> world" where
  "forge analyze generate a w =
     (let src_path = source_file a
      in if \<not> path_exists w src_path \<or> \<not> is_file w src_path then
           (Exit 1, secho (Some RED) (SourceNotFound src_path) w)
         else
           (let w1 = echo_if (verbose a) (AnalyzingSource src_path) w;
                w2 = performs (Analyze src_path) w1
            in case analyze (root w2) src_path of
                 Inl e \<Rightarrow> (Exit 1, secho (Some RED) (ErrorParsing e) w2)
               | Inr found \<Rightarrow>
                  (let functions = filter_by_name (function_name a) found;
                       w3 = (if truthy (function_name a) \<and> functions = [] then
                               secho (Some YELLOW)
                                 (FunctionNotFound
                                    (case function_name a of Some n \<Rightarrow> n | None \<Rightarrow> [])) w2
                             else w2);
                       w4 = echo_if (verbose a) (FoundFunctions (length functions)) w3
                   in forge_output generate a functions w4)))"

text \<open>
  What a run added to the trace, and the paths it opened for writing.
\<close>

definition new_events :: "world \<Rightarrow> world \<Rightarrow> effect list" where
  "new_events w w' = drop (length (trace w)) (trace w')"

fun written_paths :: "effect list \<Rightarrow> path list" where
  "written_paths [] = []"
| "written_paths (OpenWrite p # es) = p # written_paths es"
| "written_paths (e # es) = written_paths es"

section \<open>Sample runs\<close>

text \<open>
  A world in which the operating system refuses nothing and nothing has been
  printed or called yet, a small project tree, and the default options.
\<close>

definition quiet_world :: "node \<Rightarrow> path \<Rightarrow> world" where
  "quiet_world t d =
     \<lparr>root = t, cwd = d, mkdir_refused = (\<lambda>p. None), write_refused = (\<lambda>p. None),
      write_fails = (\<lambda>p. None), stdout = [], trace = []\<rparr>"

definition sample_tree :: node where
  "sample_tree =
     Dir [(''proj'', Dir [(''m.py'', File ''def alpha(): pass''),
                          (''tests'', Dir [(''test_m.py'', File ''old'')])])]"

definition sample_args :: "path \<Rightarrow> forge_args" where
  "sample_args p =
     \<lparr>source_file = p, function_name = None, output_dir = None,
      overwrite = False, verbose = False\<rparr>"

text \<open>
  A tree in which the test file is left but the module is gone, a tree with an empty
  \<^verbatim>\<open>tests\<close> directory, two descriptors, an analyzer that finds no callable and
  one that finds the two descriptors, a generator that gives a header only, a world
  in which every write is refused, and the options that ask for a callable named
  \<^verbatim>\<open>gamma\<close>.
\<close>

definition orphan_tree :: node where
  "orphan_tree = Dir [(''proj'', Dir [(''tests'', Dir [(''test_m.py'', File ''old'')])])]"

definition fresh_tree :: node where
  "fresh_tree = Dir [(''proj'', Dir [(''m.py'', File ''def alpha(): pass''), (''tests'', Dir [])])]"

definition alpha :: CallableDescriptor where
  "alpha = \<lparr>name = ''alpha'', parameters = [], is_async = False, is_method = False,
            decorators = [], docstring = None, lineno = 1\<rparr>"

definition beta :: CallableDescriptor where
  "beta = \<lparr>name = ''beta'', parameters = [], is_async = False, is_method = False,
            decorators = [], docstring = None, lineno = 2\<rparr>"

definition no_callables :: analyzer where
  "no_callables t p = Inr []"

definition alpha_beta :: analyzer where
  "alpha_beta t p = Inr [alpha, beta]"

definition pytest_header :: generator where
  "pytest_header p fs = ''import pytest''"

definition refusing_world :: "node \<Rightarrow> path \<Rightarrow> world" where
  "refusing_world t d =
     (quiet_world t d)\<lparr>write_refused := (\<lambda>p. Some ''[Errno 13] Permission denied'')\<rparr>"

definition gamma_args :: forge_args where
  "gamma_args = (sample_args [''proj'', ''m.py''])\<lparr>function_name := Some ''gamma''\<rparr>"

section \<open>The source analyzer\<close>

text \<open>
  Modelled from the spec: the module \<^verbatim>\<open>pytest_forger.core\<close> (the class
  \<^verbatim>\<open>CodeAnalyzer\<close> with \<^verbatim>\<open>extract_functions\<close>, and
  \<^verbatim>\<open>generate_test_content\<close>) is not among the sources. The tree the analyzer
  walks is the one the language's own parser gives: a formal parameter with its
  optional annotation, the parameter lists of a definition as Python's \<^verbatim>\<open>ast\<close>
  module lays them out, and the statements the walk tells apart. Annotations,
  defaults and decorators are source fragments, never evaluated.
\<close>

record py_arg =
  arg :: string
  annotation :: "string option"

record arguments =
  posonlyargs :: "py_arg list"
  args :: "py_arg list"
  vararg :: "py_arg option"
  kwonlyargs :: "py_arg list"
  kw_defaults :: "string option list"
  kwarg :: "py_arg option"
  defaults :: "string list"

text \<open>
  Modelled from the spec: a statement is a function definition (name, parameters,
  body, decorators, line), an asynchronous one, a class definition (name, body), an
  expression statement that is a bare string literal, or any other statement, whose
  content the walk does not look at.
\<close>

datatype stmt =
    FunctionDef string arguments "stmt list" "string list" nat
  | AsyncFunctionDef string arguments "stmt list" "string list" nat
  | ClassDef string "stmt list"
  | StringExpr string
  | Other

text \<open>
  Modelled from the spec: the syntax diagnostic (line, column and message), the two
  kinds of failure of the analyzer, and the parser, a parameter of the model.
\<close>

record syntax_error =
  se_lineno :: nat
  se_offset :: nat
  se_msg :: string

datatype analysis_error = IOError string | ParseError syntax_error

type_synonym parser = "string \<Rightarrow> syntax_error + stmt list"

text \<open>
  Modelled from the spec: step 4 of the analyzer, the parameters of a definition in
  source order with their kinds. The defaults of the positional parameters belong to
  the last of them; a keyword-only parameter has its own optional default; the two
  variadic parameters have none.
\<close>

definition parameter :: "param_kind \<Rightarrow> py_arg \<Rightarrow> string option \<Rightarrow> ParameterDescriptor" where
  "parameter k a d = \<lparr>p_name = arg a, p_kind = k, p_annotation = annotation a, p_default = d\<rparr>"

definition positional_defaults :: "nat \<Rightarrow> string list \<Rightarrow> string option list" where
  "positional_defaults n ds = replicate (n - length ds) None @ map Some ds"

definition extract_parameters :: "arguments \<Rightarrow> ParameterDescriptor list" where
  "extract_parameters a =
     (let npos = length (posonlyargs a);
          ds = positional_defaults (npos + length (args a)) (defaults a)
      in map2 (parameter PositionalOnly) (posonlyargs a) (take npos ds)
       @ map2 (parameter PositionalOrKeyword) (args a) (drop npos ds)
       @ (case vararg a of None \<Rightarrow> [] | Some v \<Rightarrow> [parameter VarPositional v None])
       @ map2 (parameter KeywordOnly) (kwonlyargs a) (kw_defaults a)
       @ (case kwarg a of None \<Rightarrow> [] | Some k \<Rightarrow> [parameter VarKeyword k None]))"

text \<open>
  Modelled from the spec: the docstring is the first statement of the body when that
  is a bare string literal.
\<close>

fun get_docstring :: "stmt list \<Rightarrow> string option" where
  "get_docstring (StringExpr s # rest) = Some s"
| "get_docstring body = None"

text \<open>
  Modelled from the spec: the walk carries the kind of the current scope; a definition
  is a method when its immediate enclosing scope is a class body.
\<close>

datatype scope = ModuleScope | ClassScope

definition describe ::
  "scope \<Rightarrow> bool \<Rightarrow> string \<Rightarrow> arguments \<Rightarrow> stmt list \<Rightarrow> string list \<Rightarrow> nat
     \<Rightarrow> CallableDescriptor" where
  "describe sc asynchronous n a body ds l =
     \<lparr>name = n, parameters = extract_parameters a, is_async = asynchronous,
      is_method = (sc = ClassScope), decorators = ds, docstring = get_docstring body,
      lineno = l\<rparr>"

text \<open>
  Modelled from the spec: step 3 of the analyzer. The walk visits the definitions of
  the module body and, for a class definition of the module body, the definitions
  directly in the class body; it does not go into the body of a definition, nor into
  a class nested in a class.
\<close>

fun visit :: "scope \<Rightarrow> stmt \<Rightarrow> CallableDescriptor list" where
  "visit sc (FunctionDef n a body ds l) = [describe sc False n a body ds l]"
| "visit sc (AsyncFunctionDef n a body ds l) = [describe sc True n a body ds l]"
| "visit ModuleScope (ClassDef n body) = concat (map (visit ClassScope) body)"
| "visit ClassScope (ClassDef n body) = []"
| "visit sc (StringExpr s) = []"
| "visit sc Other = []"

definition visit_module :: "stmt list \<Rightarrow> CallableDescriptor list" where
  "visit_module body = concat (map (visit ModuleScope) body)"

text \<open>
  Modelled from the spec: the contract \<^verbatim>\<open>extract_functions(source_path)\<close>, steps 1,
  2 and 5: read the text (an unreadable path is an \<^verbatim>\<open>IOError\<close>), parse it (a
  syntax error aborts with the parser's diagnostic), walk the tree and return the
  descriptors in the order met.
\<close>

definition extract_functions ::
  "parser \<Rightarrow> node \<Rightarrow> path \<Rightarrow> analysis_error + CallableDescriptor list" where
  "extract_functions parse t source_path =
     (case lookup t source_path of
        Some (File content) \<Rightarrow>
          (case parse content of
             Inl d \<Rightarrow> Inl (ParseError d)
           | Inr body \<Rightarrow> Inr (visit_module body))
      | _ \<Rightarrow> Inl (IOError ''unreadable''))"

text \<open>
  Modelled from the spec: what the testable properties count, the function
  definitions at module level and the method definitions directly in a class of the
  module.
\<close>

fun is_function_definition :: "stmt \<Rightarrow> bool" where
  "is_function_definition (FunctionDef n a body ds l) = True"
| "is_function_definition (AsyncFunctionDef n a body ds l) = True"
| "is_function_definition s = False"

definition module_level_functions :: "stmt list \<Rightarrow> stmt list" where
  "module_level_functions body = filter is_function_definition body"

fun methods_of :: "stmt \<Rightarrow> stmt list" where
  "methods_of (ClassDef n body) = filter is_function_definition body"
| "methods_of s = []"

definition class_methods :: "stmt list \<Rightarrow> stmt list" where
  "class_methods body = concat (map methods_of body)"

text \<open>
  Modelled from the spec: a module with everything inside the bodies of its
  definitions erased but a leading docstring, hence without any function nested in a
  function.
\<close>

fun docstring_only :: "stmt list \<Rightarrow> stmt list" where
  "docstring_only (StringExpr s # rest) = [StringExpr s]"
| "docstring_only body = []"

fun erase_nested :: "stmt \<Rightarrow> stmt" where
  "erase_nested (FunctionDef n a body ds l) = FunctionDef n a (docstring_only body) ds l"
| "erase_nested (AsyncFunctionDef n a body ds l) = AsyncFunctionDef n a (docstring_only body) ds l"
| "erase_nested (ClassDef n body) = ClassDef n (map erase_nested body)"
| "erase_nested s = s"

text \<open>
  Modelled from the spec: one invocation of the analyzer in a world (section 5). It
  reads the source file once, has no other effect and keeps nothing from one
  invocation to the next.
\<close>

definition call_extract_functions ::
  "parser \<Rightarrow> path \<Rightarrow> world \<Rightarrow> (analysis_error + CallableDescriptor list) \<times> world" where
  "call_extract_functions parse p w = (extract_functions parse (root w) p, performs (Analyze p) w)"

text \<open>
  Modelled from the spec: the definitions that stand in the source text where the
  walk looks, in the order of the text (a function of the module, then the methods of
  a class of the module where the class stands), and the name and the line of a
  definition.
\<close>

definition definitions_in_order :: "stmt list \<Rightarrow> stmt list" where
  "definitions_in_order body =
     concat (map (\<lambda>s. if is_function_definition s then [s] else methods_of s) body)"

fun definition_name :: "stmt \<Rightarrow> string" where
  "definition_name (FunctionDef n a body ds l) = n"
| "definition_name (AsyncFunctionDef n a body ds l) = n"
| "definition_name (ClassDef n body) = n"
| "definition_name s = []"

fun definition_line :: "stmt \<Rightarrow> nat" where
  "definition_line (FunctionDef n a body ds l) = l"
| "definition_line (AsyncFunctionDef n a body ds l) = l"
| "definition_line s = 0"

section \<open>The names of the generated tests\<close>

text \<open>
  Modelled from the spec: step 3 of \<^verbatim>\<open>generate_test_content\<close>, which is not among
  the sources. A test is named \<^verbatim>\<open>test_\<close> followed by the callable's name; the first
  descriptor of a name keeps that, the \<open>k\<close>-th one of the same name gets the suffix
  \<^verbatim>\<open>_k\<close> in decimal. \<open>seen\<close> counts the descriptors of each name met so far.
\<close>

definition digit :: "nat \<Rightarrow> char" where
  "digit d = ''0123456789'' ! d"

function decimal :: "nat \<Rightarrow> string" where
  "decimal n = (if n < 10 then [digit n] else decimal (n div 10) @ [digit (n mod 10)])"
  by pat_completeness auto
termination
  by (relation "measure id") auto

definition numbered :: "string \<Rightarrow> nat \<Rightarrow> string" where
  "numbered base k = (if k = 1 then base else base @ ''_'' @ decimal k)"

fun test_names_from :: "(string \<Rightarrow> nat) \<Rightarrow> CallableDescriptor list \<Rightarrow> string list" where
  "test_names_from seen [] = []"
| "test_names_from seen (d # ds) =
     (let k = seen (name d) + 1
      in numbered (''test_'' @ name d) k # test_names_from (seen(name d := k)) ds)"

definition test_names :: "CallableDescriptor list \<Rightarrow> string list" where
  "test_names ds = test_names_from (\<lambda>n. 0) ds"

text \<open>
  Modelled from the spec: which occurrence of its name the descriptor at index \<open>i\<close> is,
  counted from 1 in descriptor order.
\<close>

definition occurrence :: "CallableDescriptor list \<Rightarrow> nat \<Rightarrow> nat" where
  "occurrence ds i = count_list (map name (take (Suc i) ds)) (name (ds ! i))"

section \<open>Sample sources\<close>

text \<open>
  A descriptor known by its name only; the tree of the declaration
  \<^verbatim>\<open>def f(a, b=1, *args, c, **kw): pass\<close>; a module with a function nested in a
  function and a class nested in a class; a parser that knows these sources and
  rejects every other text; and trees holding them.
\<close>

definition named :: "string \<Rightarrow> CallableDescriptor" where
  "named n = \<lparr>name = n, parameters = [], is_async = False, is_method = False,
              decorators = [], docstring = None, lineno = 0\<rparr>"

definition no_arguments :: arguments where
  "no_arguments =
     \<lparr>posonlyargs = [], args = [], vararg = None, kwonlyargs = [], kw_defaults = [],
      kwarg = None, defaults = []\<rparr>"

definition declaration_f :: stmt where
  "declaration_f =
     FunctionDef ''f''
       \<lparr>posonlyargs = [],
        args = [\<lparr>arg = ''a'', annotation = None\<rparr>, \<lparr>arg = ''b'', annotation = None\<rparr>],
        vararg = Some \<lparr>arg = ''args'', annotation = None\<rparr>,
        kwonlyargs = [\<lparr>arg = ''c'', annotation = None\<rparr>],
        kw_defaults = [None],
        kwarg = Some \<lparr>arg = ''kw'', annotation = None\<rparr>,
        defaults = [''1'']\<rparr>
       [Other] [] 1"

definition nested_source :: string where
  "nested_source =
     ''def outer():'' @ [CHR 0x0A] @
     ''    def inner(): pass'' @ [CHR 0x0A] @
     ''class K:'' @ [CHR 0x0A] @
     ''    def m(self): pass'' @ [CHR 0x0A] @
     ''    class Deep:'' @ [CHR 0x0A] @
     ''        def d(self): pass'' @ [CHR 0x0A]"

definition nested_module :: "stmt list" where
  "nested_module =
     [FunctionDef ''outer'' no_arguments
        [FunctionDef ''inner'' no_arguments [Other] [] 2] [] 1,
      ClassDef ''K''
        [FunctionDef ''m''
           (no_arguments\<lparr>args := [\<lparr>arg = ''self'', annotation = None\<rparr>]\<rparr>) [Other] [] 4,
         ClassDef ''Deep''
           [FunctionDef ''d''
              (no_arguments\<lparr>args := [\<lparr>arg = ''self'', annotation = None\<rparr>]\<rparr>) [Other] [] 6]]]"

definition sample_parse :: parser where
  "sample_parse content =
     (if content = ''def f(a, b=1, *args, c, **kw): pass'' then Inr [declaration_f]
      else if content = ''def alpha(): pass'' then
        Inr [FunctionDef ''alpha'' no_arguments [Other] [] 1]
      else if content = nested_source then Inr nested_module
      else Inl \<lparr>se_lineno = 1, se_offset = 1, se_msg = ''invalid syntax''\<rparr>)"

definition f_tree :: node where
  "f_tree =
     Dir [(''proj'', Dir [(''f.py'', File ''def f(a, b=1, *args, c, **kw): pass''),
                          (''n.py'', File nested_source)])]"

section \<open>Facts about the file tree\<close>

lemma lookup_snoc:
  "lookup t (p @ [c]) = Some n \<Longrightarrow> \<exists>es. lookup t p = Some (Dir es)"
proof (induction p arbitrary: t)
  case Nil
  then show ?case by (cases t) auto
next
  case (Cons d p)
  then show ?case by (cases t) (auto split: option.splits)
qed

lemma path_exists_parent:
  "path_exists w (p @ [c]) \<Longrightarrow> path_exists w p"
  unfolding path_exists_def using lookup_snoc by fastforce

lemma lookup_append:
  "lookup t (p @ q) = (case lookup t p of None \<Rightarrow> None | Some n \<Rightarrow> lookup n q)"
  by (induction t p rule: lookup.induct) (auto split: option.splits)

lemma lookup_new_dirs: "lookup (new_dirs p) p = Some (Dir [])"
  by (induction p) simp_all

lemma mkdir_parents_lookup:
  "mkdir_parents t p = Inr t' \<Longrightarrow> lookup t' p = Some (Dir [])"
proof (induction t p arbitrary: t' rule: mkdir_parents.induct)
  case (3 es c cs)
  show ?case
  proof (cases "map_of es c")
    case None
    with 3(2) show ?thesis by (auto simp add: update_conv' lookup_new_dirs)
  next
    case (Some n)
    with 3(2) obtain n' where n': "mkdir_parents n cs = Inr n'"
      and t': "t' = Dir (AList.update c n' es)"
      by (auto split: sum.splits)
    from 3(1) [OF Some n'] t' show ?thesis by (simp add: update_conv')
  qed
qed auto

lemma write_node_snoc:
  assumes "lookup t p = Some (Dir es)"
    and "map_of es c = None \<or> (\<exists>x. map_of es c = Some (File x))"
  shows "\<exists>t'. write_node t (p @ [c]) content = Inr t'"
  using assms
proof (induction t p rule: lookup.induct)
  case (1 n)
  then show ?case by auto
next
  case (2 t c cs)
  then show ?case by simp
next
  case (3 es' d cs)
  then show ?case by (auto split: option.splits)
qed

section \<open>Facts about the steps of the command\<close>

lemma fold_echo:
  "fold (\<lambda>f. echo (m f)) fs w = w\<lparr>stdout := stdout w @ map (\<lambda>f. (None, m f)) fs\<rparr>"
  by (induction fs arbitrary: w) (simp_all add: echo_def secho_def)

lemmas world_ops = secho_def echo_def echo_if_def performs_def path_exists_def is_file_def
  out_path_def test_file_path_def

lemma secho_fields [simp]:
  "root (secho c m w) = root w" "cwd (secho c m w) = cwd w"
  "trace (secho c m w) = trace w" "stdout (secho c m w) = stdout w @ [(c, m)]"
  "mkdir_refused (secho c m w) = mkdir_refused w"
  "write_refused (secho c m w) = write_refused w"
  "write_fails (secho c m w) = write_fails w"
  by (simp_all add: secho_def)

lemma echo_if_fields [simp]:
  "root (echo_if b m w) = root w" "cwd (echo_if b m w) = cwd w"
  "trace (echo_if b m w) = trace w"
  "stdout (echo_if b m w) = stdout w @ (if b then [(None, m)] else [])"
  "mkdir_refused (echo_if b m w) = mkdir_refused w"
  "write_refused (echo_if b m w) = write_refused w"
  "write_fails (echo_if b m w) = write_fails w"
  by (simp_all add: echo_if_def echo_def)

lemma performs_fields [simp]:
  "root (performs e w) = root w" "cwd (performs e w) = cwd w"
  "trace (performs e w) = trace w @ [e]" "stdout (performs e w) = stdout w"
  "mkdir_refused (performs e w) = mkdir_refused w"
  "write_refused (performs e w) = write_refused w"
  "write_fails (performs e w) = write_fails w"
  by (simp_all add: performs_def)

lemma path_exists_root: "root w' = root w \<Longrightarrow> path_exists w' p = path_exists w p"
  by (simp add: path_exists_def)

lemma out_path_cwd: "cwd w' = cwd w \<Longrightarrow> out_path a w' = out_path a w"
  by (simp add: out_path_def split: option.splits)

lemma test_file_path_cwd: "cwd w' = cwd w \<Longrightarrow> test_file_path a w' = test_file_path a w"
  by (simp add: test_file_path_def out_path_def split: option.splits)

lemma prepare_Inr:
  assumes "prepare_output_directory a w = Inr w1"
  shows "cwd w1 = cwd w \<and> write_refused w1 = write_refused w
       \<and> (\<exists>mk. trace w1 = trace w @ mk \<and> (mk = [] \<or> mk = [Mkdir (out_path a w)]))
       \<and> (\<exists>ms. stdout w1 = stdout w @ ms)"
  using assms
  by (auto simp add: prepare_output_directory_def mkdir_def Let_def world_ops
      split: if_splits sum.splits option.splits)

lemma prepare_Inl:
  assumes "prepare_output_directory a w = Inl (e, w1)"
  shows "w1 = w\<lparr>trace := trace w @ [Mkdir (out_path a w)]\<rparr>"
  using assms
  by (auto simp add: prepare_output_directory_def mkdir_def Let_def world_ops
      split: if_splits sum.splits option.splits)

lemma prepare_exists:
  "path_exists w (out_path a w) \<Longrightarrow> prepare_output_directory a w = Inr w"
  by (simp add: prepare_output_directory_def)

lemma generate_and_write_skip:
  "path_exists w (test_file_path a w) \<Longrightarrow> \<not> overwrite a \<Longrightarrow>
   generate_and_write G a fs w =
     (Exit 0, w\<lparr>stdout := stdout w @ [(Some YELLOW, AlreadyExists (test_file_path a w))]\<rparr>)"
  by (simp add: generate_and_write_def secho_def)

lemma open_write_Inr:
  assumes "open_write p content w = Inr w'"
  shows "trace w' = trace w @ [OpenWrite p] \<and> stdout w' = stdout w \<and> cwd w' = cwd w
       \<and> write_node (root w) p content = Inr (root w')"
  using assms
  by (auto simp add: open_write_def Let_def performs_def
      split: option.splits sum.splits prod.splits)

lemma open_write_Inl:
  assumes "open_write p content w = Inl (e, w')"
  shows "trace w' = trace w @ [OpenWrite p, IOErrorRaised p e] \<and> stdout w' = stdout w
       \<and> cwd w' = cwd w"
  using assms
  by (auto simp add: open_write_def Let_def performs_def
      split: option.splits sum.splits prod.splits)

text \<open>
  A write that fails on the open file leaves the file with what was written before
  the error.
\<close>

lemma open_write_partial:
  assumes "write_refused w p = None" and "write_fails w p = Some (e, k)"
    and "write_node (root w) p (take k content) = Inr t"
  shows "open_write p content w
           = Inl (e, performs (IOErrorRaised p e) ((performs (OpenWrite p) w)\<lparr>root := t\<rparr>))"
  using assms by (simp add: open_write_def Let_def)

lemma generate_and_write_cases:
  assumes "generate_and_write G a fs w = (out, w')"
  shows "(out = Exit 0 \<and> trace w' = trace w \<and> root w' = root w
            \<and> path_exists w (test_file_path a w) \<and> \<not> overwrite a)
       \<or> (out = Returned
            \<and> trace w' = trace w @ [Generate (source_file a) fs, OpenWrite (test_file_path a w)]
            \<and> write_node (root w) (test_file_path a w) (G (source_file a) fs) = Inr (root w'))
       \<or> (\<exists>e. out = Exit 1
            \<and> trace w' = trace w @ [Generate (source_file a) fs, OpenWrite (test_file_path a w),
                                     IOErrorRaised (test_file_path a w) e]
            \<and> stdout w' = stdout w @ [(Some RED, ErrorWriting e)])"
proof (cases "path_exists w (test_file_path a w) \<and> \<not> overwrite a")
  case True
  with assms show ?thesis by (auto simp add: generate_and_write_skip)
next
  case False
  let ?w1 = "performs (Generate (source_file a) fs) w"
  show ?thesis
  proof (cases "open_write (test_file_path a w) (G (source_file a) fs) ?w1")
    case (Inl ew)
    obtain e w2 where ew: "ew = (e, w2)" by (cases ew)
    from open_write_Inl [OF Inl [unfolded ew]] assms False Inl ew show ?thesis
      by (auto simp add: generate_and_write_def Let_def secho_def performs_def)
  next
    case (Inr w2)
    from open_write_Inr [OF Inr] assms False Inr show ?thesis
      by (auto simp add: generate_and_write_def Let_def secho_def performs_def fold_echo echo_def
          split: if_splits)
  qed
qed


lemma write_node_lookup:
  "write_node t p content = Inr t' \<Longrightarrow> lookup t' p = Some (File content)"
proof (induction t p content arbitrary: t' rule: write_node.induct)
  case (4 es c cs content)
  show ?case
  proof (cases "map_of es c")
    case None
    with 4(2) show ?thesis
      by (auto simp add: update_conv' split: if_splits)
  next
    case (Some n)
    with 4(2) obtain n' where n': "write_node n cs content = Inr n'"
      and t': "t' = Dir (AList.update c n' es)"
      by (auto split: sum.splits)
    from 4(1) [OF Some n'] t' show ?thesis
      by (simp add: update_conv')
  qed
qed auto

lemma forge_output_anatomy:
  assumes "forge_output G a fs w = (out, w')"
  shows "(\<exists>e. out = Uncaught e \<and> trace w' = trace w @ [Mkdir (out_path a w)])
       \<or> (\<exists>mk. (mk = [] \<or> mk = [Mkdir (out_path a w)])
            \<and> ((out = Exit 0 \<and> trace w' = trace w @ mk)
              \<or> (out = Returned
                   \<and> trace w' = trace w @ mk @
                        [Generate (source_file a) fs, OpenWrite (test_file_path a w)]
                   \<and> lookup (root w') (test_file_path a w) = Some (File (G (source_file a) fs)))
              \<or> (\<exists>e. out = Exit 1
                   \<and> trace w' = trace w @ mk @
                        [Generate (source_file a) fs, OpenWrite (test_file_path a w),
                         IOErrorRaised (test_file_path a w) e]
                   \<and> stdout w' \<noteq> [] \<and> last (stdout w') = (Some RED, ErrorWriting e))))"
proof (cases "prepare_output_directory a w")
  case (Inl ew)
  obtain e w1 where ew: "ew = (e, w1)" by (cases ew)
  from prepare_Inl [OF Inl [unfolded ew]] assms Inl ew show ?thesis
    by (auto simp add: forge_output_def)
next
  case (Inr w1)
  from prepare_Inr [OF Inr] obtain mk where
    c: "cwd w1 = cwd w" and mk: "trace w1 = trace w @ mk" "mk = [] \<or> mk = [Mkdir (out_path a w)]"
    by blast
  from c have p: "test_file_path a w1 = test_file_path a w"
    by (simp add: test_file_path_def out_path_def split: option.splits)
  from assms Inr have g: "generate_and_write G a fs w1 = (out, w')"
    by (simp add: forge_output_def)
  from generate_and_write_cases [OF g] show ?thesis
  proof (elim disjE exE conjE)
    assume "out = Exit 0" "trace w' = trace w1"
    with mk show ?thesis by auto
  next
    assume r: "out = Returned"
      "trace w' = trace w1 @ [Generate (source_file a) fs, OpenWrite (test_file_path a w1)]"
      "write_node (root w1) (test_file_path a w1) (G (source_file a) fs) = Inr (root w')"
    from write_node_lookup [OF r(3)] r(1,2) mk p show ?thesis by auto
  next
    fix e
    assume "out = Exit 1"
      "trace w' = trace w1 @ [Generate (source_file a) fs, OpenWrite (test_file_path a w1),
                               IOErrorRaised (test_file_path a w1) e]"
      "stdout w' = stdout w1 @ [(Some RED, ErrorWriting e)]"
    with mk p show ?thesis by auto
  qed
qed

lemma forge_analysed:
  assumes "path_exists w (source_file a)" "is_file w (source_file a)"
    and "X (root w) (source_file a) = Inr found"
  shows "\<exists>w4. forge X G a w = forge_output G a (filter_by_name (function_name a) found) w4
           \<and> root w4 = root w \<and> cwd w4 = cwd w
           \<and> trace w4 = trace w @ [Analyze (source_file a)]"
proof -
  let ?fs = "filter_by_name (function_name a) found"
  let ?w2 = "performs (Analyze (source_file a)) (echo_if (verbose a) (AnalyzingSource (source_file a)) w)"
  let ?w3 = "if truthy (function_name a) \<and> ?fs = [] then
               secho (Some YELLOW)
                 (FunctionNotFound (case function_name a of Some n \<Rightarrow> n | None \<Rightarrow> [])) ?w2
             else ?w2"
  let ?w4 = "echo_if (verbose a) (FoundFunctions (length ?fs)) ?w3"
  from assms have "forge X G a w = forge_output G a ?fs ?w4"
    by (simp add: forge_def Let_def)
  moreover have "root ?w4 = root w" "cwd ?w4 = cwd w"
    "trace ?w4 = trace w @ [Analyze (source_file a)]"
    by simp_all
  ultimately show ?thesis by blast
qed

lemma forge_anatomy:
  assumes "forge X G a w = (out, w')"
  shows "(out = Exit 1 \<and> new_events w w' = [])
       \<or> (out = Exit 1 \<and> new_events w w' = [Analyze (source_file a)])
       \<or> (\<exists>e. out = Uncaught e
             \<and> new_events w w' = [Analyze (source_file a), Mkdir (out_path a w)])
       \<or> (\<exists>mk fs. (mk = [] \<or> mk = [Mkdir (out_path a w)])
            \<and> ((out = Exit 0 \<and> new_events w w' = Analyze (source_file a) # mk)
              \<or> (out = Returned
                   \<and> new_events w w' = Analyze (source_file a) # mk @
                        [Generate (source_file a) fs, OpenWrite (test_file_path a w)]
                   \<and> lookup (root w') (test_file_path a w) = Some (File (G (source_file a) fs)))
              \<or> (\<exists>e. out = Exit 1
                   \<and> new_events w w' = Analyze (source_file a) # mk @
                        [Generate (source_file a) fs, OpenWrite (test_file_path a w),
                         IOErrorRaised (test_file_path a w) e]
                   \<and> stdout w' \<noteq> [] \<and> last (stdout w') = (Some RED, ErrorWriting e))))"
proof (cases "path_exists w (source_file a) \<and> is_file w (source_file a)")
  case False
  with assms have "out = Exit 1 \<and> w' = secho (Some RED) (SourceNotFound (source_file a)) w"
    by (auto simp add: forge_def)
  then have "out = Exit 1 \<and> new_events w w' = []"
    by (simp add: new_events_def)
  then show ?thesis by blast
next
  case True
  then have ok: "path_exists w (source_file a)" "is_file w (source_file a)" by simp_all
  show ?thesis
  proof (cases "X (root w) (source_file a)")
    case (Inl e)
    with ok assms have "out = Exit 1 \<and> trace w' = trace w @ [Analyze (source_file a)]"
      by (auto simp add: forge_def Let_def)
    then have "out = Exit 1 \<and> new_events w w' = [Analyze (source_file a)]"
      by (simp add: new_events_def)
    then show ?thesis by blast
  next
    case (Inr found)
    from forge_analysed [of w a X found G, OF ok Inr] obtain w4 where
      f: "forge X G a w = forge_output G a (filter_by_name (function_name a) found) w4"
      and c: "cwd w4 = cwd w" and t: "trace w4 = trace w @ [Analyze (source_file a)]"
      by blast
    have p1: "out_path a w4 = out_path a w" using c by (rule out_path_cwd)
    have p2: "test_file_path a w4 = test_file_path a w" using c by (rule test_file_path_cwd)
    note p = p1 p2
    let ?fs = "filter_by_name (function_name a) found"
    from f assms have "forge_output G a ?fs w4 = (out, w')" by simp
    from forge_output_anatomy [OF this, unfolded p t]
    consider
      (crash) e where "out = Uncaught e"
        "trace w' = (trace w @ [Analyze (source_file a)]) @ [Mkdir (out_path a w)]"
    | (skip) mk where "mk = [] \<or> mk = [Mkdir (out_path a w)]" "out = Exit 0"
        "trace w' = (trace w @ [Analyze (source_file a)]) @ mk"
    | (wrote) mk where "mk = [] \<or> mk = [Mkdir (out_path a w)]" "out = Returned"
        "trace w' = (trace w @ [Analyze (source_file a)]) @ mk @
           [Generate (source_file a) ?fs, OpenWrite (test_file_path a w)]"
        "lookup (root w') (test_file_path a w) = Some (File (G (source_file a) ?fs))"
    | (ioerr) mk e where "mk = [] \<or> mk = [Mkdir (out_path a w)]" "out = Exit 1"
        "trace w' = (trace w @ [Analyze (source_file a)]) @ mk @
           [Generate (source_file a) ?fs, OpenWrite (test_file_path a w),
            IOErrorRaised (test_file_path a w) e]"
        "stdout w' \<noteq> []" "last (stdout w') = (Some RED, ErrorWriting e)"
      by blast
    then show ?thesis
    proof cases
      case crash
      from crash(2) have "new_events w w' = [Analyze (source_file a), Mkdir (out_path a w)]"
        by (simp add: new_events_def)
      with crash(1) show ?thesis by blast
    next
      case skip
      from skip(3) have "new_events w w' = Analyze (source_file a) # mk"
        by (simp add: new_events_def)
      with skip(1,2) show ?thesis by blast
    next
      case wrote
      from wrote(3) have "new_events w w' = Analyze (source_file a) # mk @
           [Generate (source_file a) ?fs, OpenWrite (test_file_path a w)]"
        by (simp add: new_events_def)
      with wrote(1,2,4) show ?thesis by blast
    next
      case ioerr
      from ioerr(3) have "new_events w w' = Analyze (source_file a) # mk @
           [Generate (source_file a) ?fs, OpenWrite (test_file_path a w),
            IOErrorRaised (test_file_path a w) e]"
        by (simp add: new_events_def)
      with ioerr(1,2,4,5) show ?thesis by blast
    qed
  qed
qed

subsection \<open>The output step, case by case\<close>

lemma mkdir_Inr:
  assumes "mkdir p w = Inr w1"
  shows "mkdir_refused w p = None \<and> mkdir_parents (root w) p = Inr (root w1)
       \<and> cwd w1 = cwd w \<and> trace w1 = trace w @ [Mkdir p] \<and> stdout w1 = stdout w
       \<and> mkdir_refused w1 = mkdir_refused w \<and> write_refused w1 = write_refused w
       \<and> write_fails w1 = write_fails w"
  using assms
  by (auto simp add: mkdir_def Let_def performs_def split: option.splits sum.splits)

lemma mkdir_Inl:
  assumes "mkdir p w = Inl (e, w1)"
  shows "(mkdir_refused w p = Some e \<or> mkdir_parents (root w) p = Inl e)
       \<and> w1 = performs (Mkdir p) w"
  using assms
  by (auto simp add: mkdir_def Let_def performs_def split: option.splits sum.splits)

lemma mkdir_succeeds:
  assumes "mkdir_refused w p = None" and "mkdir_parents (root w) p = Inr t"
  shows "mkdir p w = Inr ((performs (Mkdir p) w)\<lparr>root := t\<rparr>)"
  using assms by (simp add: mkdir_def Let_def)

lemma prepare_created:
  assumes "\<not> path_exists w (out_path a w)"
    and "prepare_output_directory a w = Inr w1"
  shows "lookup (root w1) (out_path a w) = Some (Dir [])
       \<and> mkdir_refused w (out_path a w) = None
       \<and> mkdir_parents (root w) (out_path a w) = Inr (root w1)
       \<and> trace w1 = trace w @ [Mkdir (out_path a w)]"
proof -
  from assms obtain w0 where m: "mkdir (out_path a w) w = Inr w0"
    and w1: "w1 = echo_if (verbose a) (CreatedDirectory (out_path a w)) w0"
    by (auto simp add: prepare_output_directory_def split: sum.splits prod.splits)
  from mkdir_Inr [OF m] have
    r: "mkdir_refused w (out_path a w) = None"
       "mkdir_parents (root w) (out_path a w) = Inr (root w0)"
       "trace w0 = trace w @ [Mkdir (out_path a w)]"
    by simp_all
  from mkdir_parents_lookup [OF r(2)] r w1 show ?thesis by simp
qed

lemma prepare_env:
  assumes "prepare_output_directory a w = Inr w1"
  shows "cwd w1 = cwd w \<and> write_refused w1 = write_refused w
       \<and> write_fails w1 = write_fails w \<and> mkdir_refused w1 = mkdir_refused w"
  using assms
  by (auto simp add: prepare_output_directory_def mkdir_def Let_def
      split: if_splits sum.splits option.splits)

lemma prepare_destination:
  assumes "prepare_output_directory a w = Inr w1"
  shows "path_exists w1 (test_file_path a w) = path_exists w (test_file_path a w)"
proof (cases "path_exists w (out_path a w)")
  case True
  then have "prepare_output_directory a w = Inr w" by (rule prepare_exists)
  with assms show ?thesis by simp
next
  case False
  from prepare_created [OF False assms]
  have "lookup (root w1) (out_path a w) = Some (Dir [])" by simp
  then have "lookup (root w1) (out_path a w @ [test_filename a]) = None"
    by (simp add: lookup_append)
  then have 1: "\<not> path_exists w1 (test_file_path a w)"
    by (simp add: path_exists_def test_file_path_def)
  have 2: "\<not> path_exists w (test_file_path a w)"
  proof
    assume "path_exists w (test_file_path a w)"
    then have "path_exists w (out_path a w)"
      unfolding test_file_path_def by (rule path_exists_parent)
    with False show False by simp
  qed
  from 1 2 show ?thesis by simp
qed

lemma forge_output_skip:
  assumes "path_exists w (test_file_path a w)" and "\<not> overwrite a"
  shows "forge_output G a fs w
           = (Exit 0, w\<lparr>stdout := stdout w @ [(Some YELLOW, AlreadyExists (test_file_path a w))]\<rparr>)"
proof -
  from assms(1) have "path_exists w (out_path a w)"
    unfolding test_file_path_def by (rule path_exists_parent)
  then have "prepare_output_directory a w = Inr w" by (rule prepare_exists)
  with generate_and_write_skip [OF assms] show ?thesis
    by (simp add: forge_output_def)
qed

lemma forge_output_Exit_0:
  assumes "forge_output G a fs w = (Exit 0, w')"
  shows "path_exists w (test_file_path a w) \<and> \<not> overwrite a"
proof (cases "prepare_output_directory a w")
  case (Inl ew)
  with assms show ?thesis by (simp add: forge_output_def split: prod.splits)
next
  case (Inr w1)
  from prepare_env [OF Inr] have c: "cwd w1 = cwd w" by simp
  have p: "test_file_path a w1 = test_file_path a w" using c by (rule test_file_path_cwd)
  from assms Inr have g: "generate_and_write G a fs w1 = (Exit 0, w')"
    by (simp add: forge_output_def)
  from generate_and_write_cases [OF g]
  have "path_exists w1 (test_file_path a w1) \<and> \<not> overwrite a" by auto
  with p prepare_destination [OF Inr] show ?thesis by simp
qed

lemma forge_output_Uncaught:
  assumes "forge_output G a fs w = (Uncaught e, w')"
  shows "\<not> path_exists w (out_path a w)
       \<and> (mkdir_refused w (out_path a w) = Some e
            \<or> mkdir_parents (root w) (out_path a w) = Inl e)
       \<and> trace w' = trace w @ [Mkdir (out_path a w)]"
proof (cases "prepare_output_directory a w")
  case (Inl ew)
  obtain e1 w1 where ew: "ew = (e1, w1)" by (cases ew)
  from assms Inl ew have e1: "e1 = e" "w1 = w'" by (simp_all add: forge_output_def)
  from Inl ew e1 have n: "\<not> path_exists w (out_path a w)"
    and m: "mkdir (out_path a w) w = Inl (e, w')"
    by (auto simp add: prepare_output_directory_def split: if_splits sum.splits prod.splits)
  from mkdir_Inl [OF m] n show ?thesis by simp
next
  case (Inr w1)
  from assms Inr have g: "generate_and_write G a fs w1 = (Uncaught e, w')"
    by (simp add: forge_output_def)
  from generate_and_write_cases [OF g] show ?thesis by auto
qed

lemma forge_output_prefix:
  assumes "forge_output G a fs w = (out, w')"
  shows "\<exists>ms. stdout w' = stdout w @ ms"
proof (cases "prepare_output_directory a w")
  case (Inl ew)
  obtain e1 w1 where ew: "ew = (e1, w1)" by (cases ew)
  from prepare_Inl [OF Inl [unfolded ew]] assms Inl ew show ?thesis
    by (auto simp add: forge_output_def)
next
  case (Inr w1)
  from prepare_Inr [OF Inr] obtain ms where ms: "stdout w1 = stdout w @ ms" by blast
  from assms Inr have g: "generate_and_write G a fs w1 = (out, w')"
    by (simp add: forge_output_def)
  have "\<exists>ms'. stdout w' = stdout w1 @ ms'"
  proof (cases "path_exists w1 (test_file_path a w1) \<and> \<not> overwrite a")
    case True
    with g show ?thesis by (auto simp add: generate_and_write_def)
  next
    case False
    let ?w2 = "performs (Generate (source_file a) fs) w1"
    show ?thesis
    proof (cases "open_write (test_file_path a w1) (G (source_file a) fs) ?w2")
      case (Inl ew)
      obtain e w3 where ew: "ew = (e, w3)" by (cases ew)
      from open_write_Inl [OF Inl [unfolded ew]] have "stdout w3 = stdout w1" by simp
      with g False Inl ew show ?thesis
        by (auto simp add: generate_and_write_def Let_def)
    next
      case (Inr w3)
      from open_write_Inr [OF Inr] have "stdout w3 = stdout w1" by simp
      with g False Inr show ?thesis
        by (auto simp add: generate_and_write_def Let_def secho_def echo_def fold_echo)
    qed
  qed
  with ms show ?thesis by auto
qed

lemma open_write_succeeds:
  assumes "write_refused w p = None" and "write_fails w p = None"
    and "write_node (root w) p content = Inr t"
  shows "open_write p content w = Inr ((performs (OpenWrite p) w)\<lparr>root := t\<rparr>)"
  using assms by (simp add: open_write_def Let_def)

lemma generate_and_write_succeeds:
  assumes "lookup (root w) (out_path a w) = Some (Dir es)"
    and "map_of es (test_filename a) = None
         \<or> (overwrite a \<and> (\<exists>x. map_of es (test_filename a) = Some (File x)))"
    and "write_refused w (test_file_path a w) = None"
    and "write_fails w (test_file_path a w) = None"
  shows "fst (generate_and_write G a fs w) = Returned"
proof -
  let ?p = "test_file_path a w"
  let ?w1 = "performs (Generate (source_file a) fs) w"
  from assms(1) have lk: "lookup (root w) ?p = map_of es (test_filename a)"
    by (simp add: test_file_path_def lookup_append split: option.splits)
  from assms(2) lk have go: "\<not> (path_exists w ?p \<and> \<not> overwrite a)"
    by (auto simp add: path_exists_def)
  from assms(2) have "map_of es (test_filename a) = None
         \<or> (\<exists>x. map_of es (test_filename a) = Some (File x))" by blast
  from write_node_snoc [OF assms(1) this, of "G (source_file a) fs"]
  obtain t where t: "write_node (root w) ?p (G (source_file a) fs) = Inr t"
    unfolding test_file_path_def by blast
  have "open_write ?p (G (source_file a) fs) ?w1
          = Inr ((performs (OpenWrite ?p) ?w1)\<lparr>root := t\<rparr>)"
    by (rule open_write_succeeds) (simp_all add: assms(3,4) t)
  with go show ?thesis
    by (simp add: generate_and_write_def Let_def)
qed

lemma forge_output_succeeds:
  assumes "(\<exists>es. lookup (root w) (out_path a w) = Some (Dir es))
         \<or> (lookup (root w) (out_path a w) = None \<and> mkdir_refused w (out_path a w) = None
              \<and> (\<exists>t. mkdir_parents (root w) (out_path a w) = Inr t))"
    and "lookup (root w) (test_file_path a w) = None
         \<or> (overwrite a \<and> is_file w (test_file_path a w))"
    and "write_refused w (test_file_path a w) = None"
    and "write_fails w (test_file_path a w) = None"
  shows "fst (forge_output G a fs w) = Returned"
proof -
  from assms(1) consider
    (there) es where "lookup (root w) (out_path a w) = Some (Dir es)"
  | (make) t where "lookup (root w) (out_path a w) = None"
      "mkdir_refused w (out_path a w) = None" "mkdir_parents (root w) (out_path a w) = Inr t"
    by blast
  then show ?thesis
  proof cases
    case there
    then have "path_exists w (out_path a w)" by (simp add: path_exists_def)
    then have prep: "prepare_output_directory a w = Inr w" by (rule prepare_exists)
    from there have lk: "lookup (root w) (test_file_path a w) = map_of es (test_filename a)"
      by (simp add: test_file_path_def lookup_append split: option.splits)
    from assms(2) lk have "map_of es (test_filename a) = None
         \<or> (overwrite a \<and> (\<exists>x. map_of es (test_filename a) = Some (File x)))"
      by (auto simp add: is_file_def split: option.splits node.splits)
    from generate_and_write_succeeds [OF there this assms(3,4)] prep show ?thesis
      by (simp add: forge_output_def)
  next
    case make
    let ?w0 = "(performs (Mkdir (out_path a w)) w)\<lparr>root := t\<rparr>"
    let ?w1 = "echo_if (verbose a) (CreatedDirectory (out_path a w)) ?w0"
    from make(1) have "\<not> path_exists w (out_path a w)" by (simp add: path_exists_def)
    with mkdir_succeeds [OF make(2,3)]
    have prep: "prepare_output_directory a w = Inr ?w1"
      by (simp add: prepare_output_directory_def)
    have c: "cwd ?w1 = cwd w" by simp
    have o: "out_path a ?w1 = out_path a w" using c by (rule out_path_cwd)
    have p: "test_file_path a ?w1 = test_file_path a w" using c by (rule test_file_path_cwd)
    from mkdir_parents_lookup [OF make(3)]
    have 1: "lookup (root ?w1) (out_path a ?w1) = Some (Dir [])" by (simp add: o)
    have 2: "map_of [] (test_filename a) = None
         \<or> (overwrite a \<and> (\<exists>x. map_of [] (test_filename a) = Some (File x)))" by simp
    have 3: "write_refused ?w1 (test_file_path a ?w1) = None" by (simp add: p assms(3))
    have 4: "write_fails ?w1 (test_file_path a ?w1) = None" by (simp add: p assms(4))
    from generate_and_write_succeeds [OF 1 2 3 4] prep show ?thesis
      by (simp add: forge_output_def)
  qed
qed

lemma filter_by_name_none:
  assumes "wanted = Some n" and "n \<noteq> []" and "\<forall>f \<in> set found. name f \<noteq> n"
  shows "filter_by_name wanted found = []"
  using assms by (auto simp add: filter_by_name_def filter_empty_conv)

lemma forge_found:
  assumes "path_exists w (source_file a)" "is_file w (source_file a)"
    and "X (root w) (source_file a) = Inr found"
  shows "\<exists>w4. forge X G a w = forge_output G a (filter_by_name (function_name a) found) w4
           \<and> root w4 = root w \<and> cwd w4 = cwd w
           \<and> trace w4 = trace w @ [Analyze (source_file a)]
           \<and> mkdir_refused w4 = mkdir_refused w \<and> write_refused w4 = write_refused w
           \<and> write_fails w4 = write_fails w
           \<and> stdout w4 = stdout w
                @ (if verbose a then [(None, AnalyzingSource (source_file a))] else [])
                @ (if truthy (function_name a) \<and> filter_by_name (function_name a) found = []
                   then [(Some YELLOW,
                          FunctionNotFound (case function_name a of Some n \<Rightarrow> n | None \<Rightarrow> []))]
                   else [])
                @ (if verbose a
                   then [(None, FoundFunctions (length (filter_by_name (function_name a) found)))]
                   else [])"
proof -
  let ?fs = "filter_by_name (function_name a) found"
  let ?w2 = "performs (Analyze (source_file a)) (echo_if (verbose a) (AnalyzingSource (source_file a)) w)"
  let ?w3 = "if truthy (function_name a) \<and> ?fs = [] then
               secho (Some YELLOW)
                 (FunctionNotFound (case function_name a of Some n \<Rightarrow> n | None \<Rightarrow> [])) ?w2
             else ?w2"
  let ?w4 = "echo_if (verbose a) (FoundFunctions (length ?fs)) ?w3"
  from assms have 0: "forge X G a w = forge_output G a ?fs ?w4"
    by (simp add: forge_def Let_def)
  have 1: "root ?w4 = root w" by simp
  have 2: "cwd ?w4 = cwd w" by simp
  have 3: "trace ?w4 = trace w @ [Analyze (source_file a)]" by simp
  have 4: "mkdir_refused ?w4 = mkdir_refused w" by simp
  have 5: "write_refused ?w4 = write_refused w" by simp
  have 6: "write_fails ?w4 = write_fails w" by simp
  have 7: "stdout ?w4 = stdout w
                @ (if verbose a then [(None, AnalyzingSource (source_file a))] else [])
                @ (if truthy (function_name a) \<and> ?fs = []
                   then [(Some YELLOW,
                          FunctionNotFound (case function_name a of Some n \<Rightarrow> n | None \<Rightarrow> []))]
                   else [])
                @ (if verbose a then [(None, FoundFunctions (length ?fs))] else [])"
    by simp
  show ?thesis
    apply (rule exI [of _ ?w4])
    apply (intro conjI)
           apply (rule 0)
          apply (rule 1)
         apply (rule 2)
        apply (rule 3)
       apply (rule 4)
      apply (rule 5)
     apply (rule 6)
    apply (rule 7)
    done
qed

subsection \<open>Names\<close>

lemma rfind_py: "rfind (CHR ''.'') (n @ ''.py'') = Some (length n)"
  by (induction n) auto

lemma stem_of_name_py: "n \<noteq> [] \<Longrightarrow> stem_of_name (n @ ''.py'') = n"
  by (simp add: stem_of_name_def rfind_py)

lemma path_name_snoc: "path_name (p @ [c]) = c"
  by (simp add: path_name_def)

lemma written_paths_run:
  assumes "mk = [] \<or> mk = [Mkdir d]"
  shows "written_paths (Analyze s # mk @ Generate s fs # OpenWrite p # rest) = p # written_paths rest"
  using assms by auto

subsection \<open>Sample runs, evaluated\<close>

lemmas sample_defs = quiet_world_def sample_tree_def sample_args_def orphan_tree_def
  fresh_tree_def refusing_world_def

lemmas path_defs = test_file_path_def out_path_def test_filename_def stem_def path_name_def
  stem_of_name_def

lemmas forge_defs = forge_def forge_output_def prepare_output_directory_def
  generate_and_write_def open_write_def filter_by_name_def Let_def
  path_exists_def is_file_def secho_def echo_if_def performs_def

lemma fresh_run:
  "forge (\<lambda>t p. Inr [alpha, beta]) (\<lambda>p fs. ''import pytest'')
      (sample_args [''proj'', ''m.py'']) (quiet_world fresh_tree [''proj''])
   = (Returned,
      \<lparr>root = Dir [(''proj'', Dir [(''m.py'', File ''def alpha(): pass''),
                                 (''tests'', Dir [(''test_m.py'', File ''import pytest'')])])],
       cwd = [''proj''], mkdir_refused = (\<lambda>p. None), write_refused = (\<lambda>p. None),
       write_fails = (\<lambda>p. None),
       stdout = [(Some GREEN, SuccessfullyForged [''proj'', ''tests'', ''test_m.py''])],
       trace = [Analyze [''proj'', ''m.py''], Generate [''proj'', ''m.py''] [alpha, beta],
                OpenWrite [''proj'', ''tests'', ''test_m.py'']]\<rparr>)"
  by (simp add: forge_def forge_output_def prepare_output_directory_def generate_and_write_def
      open_write_def filter_by_name_def Let_def path_defs
      path_exists_def is_file_def secho_def echo_if_def performs_def
      quiet_world_def fresh_tree_def sample_args_def)

lemma refused_run:
  "forge (\<lambda>t p. Inr [alpha, beta]) (\<lambda>p fs. ''import pytest'')
      (sample_args [''proj'', ''m.py'']) (refusing_world fresh_tree [''proj''])
   = (Exit 1,
      \<lparr>root = fresh_tree,
       cwd = [''proj''], mkdir_refused = (\<lambda>p. None),
       write_refused = (\<lambda>p. Some ''[Errno 13] Permission denied''),
       write_fails = (\<lambda>p. None),
       stdout = [(Some RED, ErrorWriting ''[Errno 13] Permission denied'')],
       trace = [Analyze [''proj'', ''m.py''], Generate [''proj'', ''m.py''] [alpha, beta],
                OpenWrite [''proj'', ''tests'', ''test_m.py''],
                IOErrorRaised [''proj'', ''tests'', ''test_m.py'']
                  ''[Errno 13] Permission denied'']\<rparr>)"
  by (simp add: forge_defs path_defs sample_defs)

lemma skipped_run:
  "forge alpha_beta pytest_header gamma_args (quiet_world sample_tree [''proj''])
   = (Exit 0,
      \<lparr>root = sample_tree,
       cwd = [''proj''], mkdir_refused = (\<lambda>p. None), write_refused = (\<lambda>p. None),
       write_fails = (\<lambda>p. None),
       stdout = [(Some YELLOW, FunctionNotFound ''gamma''),
                 (Some YELLOW, AlreadyExists [''proj'', ''tests'', ''test_m.py''])],
       trace = [Analyze [''proj'', ''m.py'']]\<rparr>)"
  by (simp add: forge_defs path_defs sample_defs gamma_args_def alpha_beta_def alpha_def beta_def)

section \<open>The command: validation of the source path\<close>

text \<open>
  C10. When the source path does not exist or is not a regular file, the run prints
  the error, exits with status 1, and has made no call before that: the analyzer is
  not called, no directory is created and no file is opened (the trace is the one
  the run started with), and the file tree is unchanged.
\<close>

theorem forge_source_missing:
  assumes "\<not> path_exists w (source_file a) \<or> \<not> is_file w (source_file a)"
  shows "fst (forge analyze generate a w) = Exit 1
       \<and> exit_status (fst (forge analyze generate a w)) = 1
       \<and> stdout (snd (forge analyze generate a w))
           = stdout w @ [(Some RED, SourceNotFound (source_file a))]
       \<and> trace (snd (forge analyze generate a w)) = trace w
       \<and> root (snd (forge analyze generate a w)) = root w"
  using assms by (simp add: forge_def secho_def)

theorem forge_source_missing_witness:
  "\<not> path_exists (quiet_world sample_tree [''proj'']) [''proj'', ''gone.py'']
   \<and> fst (forge (\<lambda>t p. Inr []) (\<lambda>p fs. []) (sample_args [''proj'', ''gone.py''])
        (quiet_world sample_tree [''proj''])) = Exit 1
   \<and> trace (snd (forge (\<lambda>t p. Inr []) (\<lambda>p fs. []) (sample_args [''proj'', ''gone.py''])
        (quiet_world sample_tree [''proj'']))) = []
   \<and> root (snd (forge (\<lambda>t p. Inr []) (\<lambda>p fs. []) (sample_args [''proj'', ''gone.py''])
        (quiet_world sample_tree [''proj'']))) = sample_tree"
proof -
  have h: "\<not> path_exists (quiet_world sample_tree [''proj'']) [''proj'', ''gone.py'']"
    by (simp add: path_exists_def quiet_world_def sample_tree_def)
  have s: "source_file (sample_args [''proj'', ''gone.py'']) = [''proj'', ''gone.py'']"
    by (simp add: sample_args_def)
  from h have "\<not> path_exists (quiet_world sample_tree [''proj''])
                   (source_file (sample_args [''proj'', ''gone.py'']))
             \<or> \<not> is_file (quiet_world sample_tree [''proj''])
                   (source_file (sample_args [''proj'', ''gone.py'']))"
    by (simp add: s)
  from forge_source_missing [OF this, of "\<lambda>t p. Inr []" "\<lambda>p fs. []"] h
  show ?thesis by (simp add: quiet_world_def)
qed

section \<open>The command: an existing test file\<close>

text \<open>
  C1, as stated, fails: the destination test file can exist, with no
  \<^verbatim>\<open>--overwrite\<close>, while the source file is missing, and the run then ends with
  status 1 at the first check (lines 90 to 92), not with status 0.
\<close>

theorem forge_skips_existing_counterexample:
  "path_exists (quiet_world orphan_tree [''proj''])
     (test_file_path (sample_args [''proj'', ''m.py'']) (quiet_world orphan_tree [''proj'']))
   \<and> \<not> overwrite (sample_args [''proj'', ''m.py''])
   \<and> exit_status (fst (forge no_callables pytest_header
        (sample_args [''proj'', ''m.py'']) (quiet_world orphan_tree [''proj'']))) = 1"
proof -
  have "path_exists (quiet_world orphan_tree [''proj'']) [''proj'', ''tests'', ''test_m.py'']"
    by (simp add: path_exists_def sample_defs)
  moreover have "\<not> path_exists (quiet_world orphan_tree [''proj'']) [''proj'', ''m.py'']"
    by (simp add: path_exists_def sample_defs)
  then have "fst (forge no_callables pytest_header
        (sample_args [''proj'', ''m.py'']) (quiet_world orphan_tree [''proj''])) = Exit 1"
    by (simp add: forge_def sample_args_def)
  ultimately show ?thesis
    by (simp add: path_defs sample_defs)
qed

text \<open>
  C1, amended. When the source path is an existing regular file and the analyzer
  returns descriptors, and the destination test file exists and no overwrite is
  asked for, the run ends with \<^verbatim>\<open>typer.Exit(code=0)\<close>: the only call made is the
  analyzer's (no directory is created, the generator is not called, no file is opened
  for writing), the file tree is unchanged, and the last line printed is the warning.
\<close>

theorem forge_skips_existing:
  assumes "path_exists w (source_file a)" and "is_file w (source_file a)"
    and "analyze (root w) (source_file a) = Inr found"
    and "path_exists w (test_file_path a w)" and "\<not> overwrite a"
    and "forge analyze generate a w = (out, w')"
  shows "out = Exit 0 \<and> exit_status out = 0
       \<and> new_events w w' = [Analyze (source_file a)]
       \<and> written_paths (new_events w w') = []
       \<and> root w' = root w
       \<and> last (stdout w') = (Some YELLOW, AlreadyExists (test_file_path a w))"
proof -
  from forge_analysed [of w a analyze found generate, OF assms(1,2,3)]
  obtain w4 where
    f: "forge analyze generate a w
          = forge_output generate a (filter_by_name (function_name a) found) w4"
    and r: "root w4 = root w" and c: "cwd w4 = cwd w"
    and t: "trace w4 = trace w @ [Analyze (source_file a)]"
    by blast
  have p: "test_file_path a w4 = test_file_path a w" using c by (rule test_file_path_cwd)
  have o: "out_path a w4 = out_path a w" using c by (rule out_path_cwd)
  from assms(4) have "path_exists w (out_path a w)"
    unfolding test_file_path_def by (rule path_exists_parent)
  with r o have "path_exists w4 (out_path a w4)"
    by (simp add: path_exists_def)
  then have prep: "prepare_output_directory a w4 = Inr w4"
    by (rule prepare_exists)
  from assms(4) r p have "path_exists w4 (test_file_path a w4)"
    by (simp add: path_exists_def)
  from generate_and_write_skip [OF this assms(5)] prep f assms(6) p
  have res: "out = Exit 0"
    "w' = w4\<lparr>stdout := stdout w4 @ [(Some YELLOW, AlreadyExists (test_file_path a w))]\<rparr>"
    by (simp_all add: forge_output_def)
  from res(2) t have "new_events w w' = [Analyze (source_file a)]"
    by (simp add: new_events_def)
  with res r show ?thesis by simp
qed

theorem forge_skips_existing_witness:
  "path_exists (quiet_world sample_tree [''proj'']) [''proj'', ''tests'', ''test_m.py'']
   \<and> fst (forge (\<lambda>t p. Inr [alpha, beta]) (\<lambda>p fs. ''import pytest'')
        (sample_args [''proj'', ''m.py'']) (quiet_world sample_tree [''proj''])) = Exit 0
   \<and> root (snd (forge (\<lambda>t p. Inr [alpha, beta]) (\<lambda>p fs. ''import pytest'')
        (sample_args [''proj'', ''m.py'']) (quiet_world sample_tree [''proj'']))) = sample_tree
   \<and> new_events (quiet_world sample_tree [''proj''])
        (snd (forge (\<lambda>t p. Inr [alpha, beta]) (\<lambda>p fs. ''import pytest'')
        (sample_args [''proj'', ''m.py'']) (quiet_world sample_tree [''proj''])))
       = [Analyze [''proj'', ''m.py'']]"
proof -
  let ?X = "\<lambda>(t::node) (p::path). Inr [alpha, beta] :: string + CallableDescriptor list"
  let ?G = "\<lambda>(p::path) (fs::CallableDescriptor list). ''import pytest''"
  let ?a = "sample_args [''proj'', ''m.py'']"
  let ?w = "quiet_world sample_tree [''proj'']"
  have 1: "path_exists ?w (source_file ?a)"
    by (simp add: path_exists_def sample_defs)
  have 2: "is_file ?w (source_file ?a)"
    by (simp add: is_file_def sample_defs)
  have 3: "?X (root ?w) (source_file ?a) = Inr [alpha, beta]" by simp
  have 4: "path_exists ?w (test_file_path ?a ?w)"
    by (simp add: path_exists_def path_defs sample_defs)
  have 5: "\<not> overwrite ?a" by (simp add: sample_args_def)
  have 6: "forge ?X ?G ?a ?w = (fst (forge ?X ?G ?a ?w), snd (forge ?X ?G ?a ?w))" by simp
  from forge_skips_existing [OF 1 2 3 4 5 6] 4 show ?thesis
    by (simp add: path_defs sample_defs)
qed

section \<open>The command: a source that does not parse\<close>

text \<open>
  C3. When the analyzer raises on an existing source file (its text is not valid
  syntax), the run prints the error with the analyzer's diagnostic \<open>e\<close> unchanged,
  exits with status 1, has called nothing but the analyzer, has opened no file for
  writing, and leaves the file tree as it was.
\<close>

theorem forge_parse_error:
  assumes "path_exists w (source_file a)" and "is_file w (source_file a)"
    and "analyze (root w) (source_file a) = Inl e"
    and "forge analyze generate a w = (out, w')"
  shows "out = Exit 1 \<and> exit_status out = 1
       \<and> stdout w' = stdout w
            @ (if verbose a then [(None, AnalyzingSource (source_file a))] else [])
            @ [(Some RED, ErrorParsing e)]
       \<and> new_events w w' = [Analyze (source_file a)]
       \<and> written_paths (new_events w w') = []
       \<and> root w' = root w"
proof -
  from assms have r: "out = Exit 1"
    "w' = secho (Some RED) (ErrorParsing e)
            (performs (Analyze (source_file a))
               (echo_if (verbose a) (AnalyzingSource (source_file a)) w))"
    by (auto simp add: forge_def Let_def)
  from r(2) have "new_events w w' = [Analyze (source_file a)]"
    by (simp add: new_events_def)
  with r show ?thesis by simp
qed

theorem forge_parse_error_witness:
  "is_file (quiet_world sample_tree [''proj'']) [''proj'', ''m.py'']
   \<and> fst (forge (\<lambda>t p. Inl ''invalid syntax (m.py, line 1)'') (\<lambda>p fs. ''import pytest'')
        (sample_args [''proj'', ''m.py'']) (quiet_world sample_tree [''proj''])) = Exit 1
   \<and> stdout (snd (forge (\<lambda>t p. Inl ''invalid syntax (m.py, line 1)'')
        (\<lambda>p fs. ''import pytest'')
        (sample_args [''proj'', ''m.py'']) (quiet_world sample_tree [''proj''])))
       = [(Some RED, ErrorParsing ''invalid syntax (m.py, line 1)'')]
   \<and> root (snd (forge (\<lambda>t p. Inl ''invalid syntax (m.py, line 1)'')
        (\<lambda>p fs. ''import pytest'')
        (sample_args [''proj'', ''m.py'']) (quiet_world sample_tree [''proj''])))
       = sample_tree"
proof -
  let ?X = "\<lambda>(t::node) (p::path).
              Inl ''invalid syntax (m.py, line 1)'' :: string + CallableDescriptor list"
  let ?G = "\<lambda>(p::path) (fs::CallableDescriptor list). ''import pytest''"
  let ?a = "sample_args [''proj'', ''m.py'']"
  let ?w = "quiet_world sample_tree [''proj'']"
  have 1: "path_exists ?w (source_file ?a)"
    by (simp add: path_exists_def sample_defs)
  have 2: "is_file ?w (source_file ?a)"
    by (simp add: is_file_def sample_defs)
  have 3: "?X (root ?w) (source_file ?a) = Inl ''invalid syntax (m.py, line 1)''" by simp
  have 4: "forge ?X ?G ?a ?w = (fst (forge ?X ?G ?a ?w), snd (forge ?X ?G ?a ?w))" by simp
  from forge_parse_error [OF 1 2 3 4] 2 show ?thesis
    by (simp add: sample_defs)
qed

section \<open>The command: the name of the test file\<close>

text \<open>
  C4. A run that returns has opened exactly one file for writing, in the output
  directory, named \<^verbatim>\<open>test_\<close> followed by the stem of the source path and
  \<^verbatim>\<open>.py\<close>, and that path is a regular file afterwards; for a source named
  \<^verbatim>\<open>n.py\<close> with \<open>n\<close> not empty the name is \<^verbatim>\<open>test_n.py\<close>.
\<close>

theorem forge_test_filename:
  assumes "forge analyze generate a w = (out, w')"
    and "out = Returned"
  shows "written_paths (new_events w w')
           = [out_path a w @ [''test_'' @ stem (source_file a) @ ''.py'']]
       \<and> path_name (test_file_path a w) = ''test_'' @ stem (source_file a) @ ''.py''
       \<and> is_file w' (test_file_path a w)
       \<and> (\<forall>n. n \<noteq> [] \<and> path_name (source_file a) = n @ ''.py''
              \<longrightarrow> path_name (test_file_path a w) = ''test_'' @ n @ ''.py'')"
proof -
  have nm: "path_name (test_file_path a w) = ''test_'' @ stem (source_file a) @ ''.py''"
    by (simp add: test_file_path_def test_filename_def path_name_snoc)
  have py: "\<forall>n. n \<noteq> [] \<and> path_name (source_file a) = n @ ''.py''
              \<longrightarrow> path_name (test_file_path a w) = ''test_'' @ n @ ''.py''"
    by (simp add: nm stem_def stem_of_name_py)
  from forge_anatomy [OF assms(1)] assms(2) obtain mk fs where
    mk: "mk = [] \<or> mk = [Mkdir (out_path a w)]"
    and ev: "new_events w w' = Analyze (source_file a) # mk @
               [Generate (source_file a) fs, OpenWrite (test_file_path a w)]"
    and lk: "lookup (root w') (test_file_path a w)
               = Some (File (generate (source_file a) fs))"
    by auto
  from written_paths_run [OF mk] ev
  have "written_paths (new_events w w') = [test_file_path a w]" by simp
  then have wp: "written_paths (new_events w w')
           = [out_path a w @ [''test_'' @ stem (source_file a) @ ''.py'']]"
    by (simp add: test_file_path_def test_filename_def)
  from lk have "is_file w' (test_file_path a w)" by (simp add: is_file_def)
  with wp nm py show ?thesis by blast
qed

theorem forge_test_filename_witness:
  "fst (forge (\<lambda>t p. Inr [alpha, beta]) (\<lambda>p fs. ''import pytest'')
        (sample_args [''proj'', ''m.py'']) (quiet_world fresh_tree [''proj''])) = Returned
   \<and> written_paths (new_events (quiet_world fresh_tree [''proj''])
        (snd (forge (\<lambda>t p. Inr [alpha, beta]) (\<lambda>p fs. ''import pytest'')
          (sample_args [''proj'', ''m.py'']) (quiet_world fresh_tree [''proj'']))))
       = [[''proj'', ''tests'', ''test_m.py'']]
   \<and> is_file (snd (forge (\<lambda>t p. Inr [alpha, beta]) (\<lambda>p fs. ''import pytest'')
          (sample_args [''proj'', ''m.py'']) (quiet_world fresh_tree [''proj''])))
        [''proj'', ''tests'', ''test_m.py'']"
proof -
  let ?X = "\<lambda>(t::node) (p::path). Inr [alpha, beta] :: string + CallableDescriptor list"
  let ?G = "\<lambda>(p::path) (fs::CallableDescriptor list). ''import pytest''"
  let ?a = "sample_args [''proj'', ''m.py'']"
  let ?w = "quiet_world fresh_tree [''proj'']"
  have 1: "forge ?X ?G ?a ?w = (fst (forge ?X ?G ?a ?w), snd (forge ?X ?G ?a ?w))" by simp
  have 2: "fst (forge ?X ?G ?a ?w) = Returned" by (simp add: fresh_run)
  from forge_test_filename [OF 1 2] 2 show ?thesis
    by (simp add: path_defs sample_defs)
qed

section \<open>The command: a write that fails\<close>

text \<open>
  C5. When writing the test file raises an \<^verbatim>\<open>IOError\<close> with text \<open>e\<close>, the
  run exits with status 1, the last line printed is the error with \<open>e\<close> unchanged,
  and the file was opened once only (the write is not tried again); the file that
  failed is the destination test file.
\<close>

theorem forge_write_error:
  assumes "forge analyze generate a w = (out, w')"
    and "IOErrorRaised p e \<in> set (new_events w w')"
  shows "out = Exit 1 \<and> exit_status out = 1
       \<and> p = test_file_path a w
       \<and> last (stdout w') = (Some RED, ErrorWriting e)
       \<and> written_paths (new_events w w') = [test_file_path a w]"
proof -
  from forge_anatomy [OF assms(1)] assms(2) obtain mk fs e' where
    mk: "mk = [] \<or> mk = [Mkdir (out_path a w)]"
    and out: "out = Exit 1"
    and ev: "new_events w w' = Analyze (source_file a) # mk @
               [Generate (source_file a) fs, OpenWrite (test_file_path a w),
                IOErrorRaised (test_file_path a w) e']"
    and er: "last (stdout w') = (Some RED, ErrorWriting e')"
    by (elim disjE exE conjE) auto
  from assms(2) ev mk have pe: "p = test_file_path a w" "e = e'" by auto
  from written_paths_run [OF mk] ev
  have "written_paths (new_events w w') = [test_file_path a w]" by simp
  with out er pe show ?thesis by simp
qed

theorem forge_write_error_witness:
  "IOErrorRaised [''proj'', ''tests'', ''test_m.py''] ''[Errno 13] Permission denied''
     \<in> set (new_events (refusing_world fresh_tree [''proj''])
         (snd (forge (\<lambda>t p. Inr [alpha, beta]) (\<lambda>p fs. ''import pytest'')
            (sample_args [''proj'', ''m.py'']) (refusing_world fresh_tree [''proj'']))))
   \<and> fst (forge (\<lambda>t p. Inr [alpha, beta]) (\<lambda>p fs. ''import pytest'')
        (sample_args [''proj'', ''m.py'']) (refusing_world fresh_tree [''proj''])) = Exit 1
   \<and> last (stdout (snd (forge (\<lambda>t p. Inr [alpha, beta]) (\<lambda>p fs. ''import pytest'')
        (sample_args [''proj'', ''m.py'']) (refusing_world fresh_tree [''proj'']))))
       = (Some RED, ErrorWriting ''[Errno 13] Permission denied'')
   \<and> written_paths (new_events (refusing_world fresh_tree [''proj''])
         (snd (forge (\<lambda>t p. Inr [alpha, beta]) (\<lambda>p fs. ''import pytest'')
            (sample_args [''proj'', ''m.py'']) (refusing_world fresh_tree [''proj'']))))
       = [[''proj'', ''tests'', ''test_m.py'']]"
proof -
  let ?X = "\<lambda>(t::node) (p::path). Inr [alpha, beta] :: string + CallableDescriptor list"
  let ?G = "\<lambda>(p::path) (fs::CallableDescriptor list). ''import pytest''"
  let ?a = "sample_args [''proj'', ''m.py'']"
  let ?w = "refusing_world fresh_tree [''proj'']"
  have 1: "forge ?X ?G ?a ?w = (fst (forge ?X ?G ?a ?w), snd (forge ?X ?G ?a ?w))" by simp
  have 2: "IOErrorRaised [''proj'', ''tests'', ''test_m.py''] ''[Errno 13] Permission denied''
             \<in> set (new_events ?w (snd (forge ?X ?G ?a ?w)))"
    by (simp add: refused_run new_events_def) (simp add: sample_defs)
  from forge_write_error [OF 1 2] 2 show ?thesis
    by (simp add: path_defs sample_defs)
qed

section \<open>The command: a filter that matches nothing\<close>

text \<open>
  C2, as stated, fails: when the destination test file exists and no
  \<^verbatim>\<open>--overwrite\<close> is given, a run whose filter matches nothing prints the
  warning and then ends with \<^verbatim>\<open>typer.Exit(code=0)\<close> at lines 128 to 130: the
  generator is not called on the empty list and the file keeps its old text.
\<close>

theorem forge_filter_not_found_counterexample:
  "alpha_beta (root (quiet_world sample_tree [''proj''])) (source_file gamma_args)
     = Inr [alpha, beta]
   \<and> function_name gamma_args = Some ''gamma''
   \<and> filter_by_name (function_name gamma_args) [alpha, beta] = []
   \<and> fst (forge alpha_beta pytest_header gamma_args (quiet_world sample_tree [''proj'']))
       = Exit 0
   \<and> new_events (quiet_world sample_tree [''proj''])
        (snd (forge alpha_beta pytest_header gamma_args (quiet_world sample_tree [''proj''])))
       = [Analyze [''proj'', ''m.py'']]
   \<and> lookup (root (snd (forge alpha_beta pytest_header gamma_args
                          (quiet_world sample_tree [''proj''])))) [''proj'', ''tests'', ''test_m.py'']
       = Some (File ''old'')
   \<and> pytest_header (source_file gamma_args) [] \<noteq> ''old''"
proof -
  have 1: "alpha_beta (root (quiet_world sample_tree [''proj''])) (source_file gamma_args)
     = Inr [alpha, beta]"
    by (simp add: alpha_beta_def)
  have 2: "function_name gamma_args = Some ''gamma''"
    by (simp add: gamma_args_def)
  have 3: "filter_by_name (function_name gamma_args) [alpha, beta] = []"
    by (simp add: 2 filter_by_name_def alpha_def beta_def)
  have 4: "fst (forge alpha_beta pytest_header gamma_args (quiet_world sample_tree [''proj'']))
       = Exit 0"
    by (simp add: skipped_run)
  have 5: "new_events (quiet_world sample_tree [''proj''])
        (snd (forge alpha_beta pytest_header gamma_args (quiet_world sample_tree [''proj''])))
       = [Analyze [''proj'', ''m.py'']]"
    by (simp add: skipped_run new_events_def) (simp add: quiet_world_def)
  have 6: "lookup (root (snd (forge alpha_beta pytest_header gamma_args
                          (quiet_world sample_tree [''proj''])))) [''proj'', ''tests'', ''test_m.py'']
       = Some (File ''old'')"
    by (simp add: skipped_run) (simp add: sample_tree_def)
  have 7: "pytest_header (source_file gamma_args) [] \<noteq> ''old''"
    by (simp add: pytest_header_def)
  show ?thesis
    apply (intro conjI)
          apply (rule 1)
         apply (rule 2)
        apply (rule 3)
       apply (rule 4)
      apply (rule 5)
     apply (rule 6)
    apply (rule 7)
    done
qed

text \<open>
  C2, amended. When the source is an existing regular file, the analyzer returns its
  descriptors and none has the name asked for, the run prints the warning (after the
  verbose line, before the count) and does not end because of the miss:
  it ends with \<^verbatim>\<open>typer.Exit(code=0)\<close> exactly when the destination exists and
  no overwrite is asked for; it lets an exception escape only when the output
  directory is missing and \<^verbatim>\<open>mkdir\<close> raises; in every other run the generator is
  called on the empty list and the destination is opened for writing; it exits with
  status 1 only when that write raises an \<^verbatim>\<open>IOError\<close>; and when it returns the
  destination holds the generator's text for the empty list. Generation on the empty
  list succeeds, the run returning with status 0, whenever the output directory is a
  directory or is missing and can be created, the destination is missing or is a
  regular file to overwrite, and the write is neither refused nor fails.
\<close>

theorem forge_filter_not_found:
  assumes "path_exists w (source_file a)" and "is_file w (source_file a)"
    and "analyze (root w) (source_file a) = Inr found"
    and "function_name a = Some n" and "n \<noteq> []"
    and "\<forall>f \<in> set found. name f \<noteq> n"
    and "forge analyze generate a w = (out, w')"
  shows "(\<exists>rest. stdout w' = stdout w
             @ (if verbose a then [(None, AnalyzingSource (source_file a))] else [])
             @ [(Some YELLOW, FunctionNotFound n)]
             @ (if verbose a then [(None, FoundFunctions 0)] else []) @ rest)
       \<and> (out = Exit 0 \<longleftrightarrow> path_exists w (test_file_path a w) \<and> \<not> overwrite a)
       \<and> (\<forall>e. out = Uncaught e \<longrightarrow>
             \<not> path_exists w (out_path a w)
             \<and> (mkdir_refused w (out_path a w) = Some e
                  \<or> mkdir_parents (root w) (out_path a w) = Inl e))
       \<and> (out = Exit 0 \<or> (\<exists>e. out = Uncaught e)
            \<or> (Generate (source_file a) [] \<in> set (new_events w w')
                 \<and> OpenWrite (test_file_path a w) \<in> set (new_events w w')))
       \<and> (out = Exit 1 \<longrightarrow>
             (\<exists>e. IOErrorRaised (test_file_path a w) e \<in> set (new_events w w')))
       \<and> (out = Returned \<longrightarrow>
             lookup (root w') (test_file_path a w) = Some (File (generate (source_file a) [])))
       \<and> (((\<exists>es. lookup (root w) (out_path a w) = Some (Dir es))
              \<or> (lookup (root w) (out_path a w) = None
                   \<and> mkdir_refused w (out_path a w) = None
                   \<and> (\<exists>t. mkdir_parents (root w) (out_path a w) = Inr t)))
            \<and> (lookup (root w) (test_file_path a w) = None
                 \<or> (overwrite a \<and> is_file w (test_file_path a w)))
            \<and> write_refused w (test_file_path a w) = None
            \<and> write_fails w (test_file_path a w) = None
          \<longrightarrow> out = Returned \<and> exit_status out = 0)"
proof -
  let ?src = "source_file a"
  have fs: "filter_by_name (function_name a) found = []"
    using assms(4,5,6) by (rule filter_by_name_none)
  from assms(4,5) have tr: "truthy (function_name a)" by simp
  from forge_found [of w a analyze found generate, OF assms(1,2,3)]
  obtain w4 where
    f: "forge analyze generate a w
          = forge_output generate a (filter_by_name (function_name a) found) w4"
    and r: "root w4 = root w" and c: "cwd w4 = cwd w"
    and t: "trace w4 = trace w @ [Analyze ?src]"
    and mr: "mkdir_refused w4 = mkdir_refused w"
    and wr: "write_refused w4 = write_refused w"
    and wf: "write_fails w4 = write_fails w"
    and so: "stdout w4 = stdout w
                @ (if verbose a then [(None, AnalyzingSource ?src)] else [])
                @ (if truthy (function_name a) \<and> filter_by_name (function_name a) found = []
                   then [(Some YELLOW,
                          FunctionNotFound (case function_name a of Some n \<Rightarrow> n | None \<Rightarrow> []))]
                   else [])
                @ (if verbose a
                   then [(None, FoundFunctions (length (filter_by_name (function_name a) found)))]
                   else [])"
    by (elim exE conjE)
  have p: "test_file_path a w4 = test_file_path a w" using c by (rule test_file_path_cwd)
  have o: "out_path a w4 = out_path a w" using c by (rule out_path_cwd)
  have pe: "path_exists w4 q = path_exists w q" for q
    using r by (rule path_exists_root)
  have isf: "is_file w4 q = is_file w q" for q
    using r by (simp add: is_file_def)
  from f fs assms(7) have run: "forge_output generate a [] w4 = (out, w')" by simp
  from so fs tr assms(4) have so': "stdout w4 = stdout w
             @ (if verbose a then [(None, AnalyzingSource ?src)] else [])
             @ [(Some YELLOW, FunctionNotFound n)]
             @ (if verbose a then [(None, FoundFunctions 0)] else [])"
    by simp
  from forge_output_prefix [OF run] obtain ms where "stdout w' = stdout w4 @ ms" by blast
  with so' have "stdout w' = stdout w
             @ (if verbose a then [(None, AnalyzingSource ?src)] else [])
             @ [(Some YELLOW, FunctionNotFound n)]
             @ (if verbose a then [(None, FoundFunctions 0)] else []) @ ms"
    by simp
  then have c1: "\<exists>rest. stdout w' = stdout w
             @ (if verbose a then [(None, AnalyzingSource ?src)] else [])
             @ [(Some YELLOW, FunctionNotFound n)]
             @ (if verbose a then [(None, FoundFunctions 0)] else []) @ rest"
    by (rule exI)
  have c2: "out = Exit 0 \<longleftrightarrow> path_exists w (test_file_path a w) \<and> \<not> overwrite a"
  proof
    assume "out = Exit 0"
    with run have "forge_output generate a [] w4 = (Exit 0, w')" by simp
    from forge_output_Exit_0 [OF this] p pe
    show "path_exists w (test_file_path a w) \<and> \<not> overwrite a" by simp
  next
    assume "path_exists w (test_file_path a w) \<and> \<not> overwrite a"
    then have "path_exists w4 (test_file_path a w4)" "\<not> overwrite a"
      by (simp_all add: p pe)
    from forge_output_skip [OF this, of generate "[]"] run show "out = Exit 0" by simp
  qed
  have c3: "\<forall>e. out = Uncaught e \<longrightarrow>
             \<not> path_exists w (out_path a w)
             \<and> (mkdir_refused w (out_path a w) = Some e
                  \<or> mkdir_parents (root w) (out_path a w) = Inl e)"
  proof (intro allI impI)
    fix e assume "out = Uncaught e"
    with run have "forge_output generate a [] w4 = (Uncaught e, w')" by simp
    from forge_output_Uncaught [OF this]
    show "\<not> path_exists w (out_path a w)
             \<and> (mkdir_refused w (out_path a w) = Some e
                  \<or> mkdir_parents (root w) (out_path a w) = Inl e)"
      by (simp add: o pe mr r)
  qed
  from forge_output_anatomy [OF run, unfolded p o t]
  consider
    (crash) e where "out = Uncaught e"
  | (skip) "out = Exit 0"
  | (wrote) mk where "out = Returned"
      "trace w' = (trace w @ [Analyze ?src]) @ mk @
         [Generate ?src [], OpenWrite (test_file_path a w)]"
      "lookup (root w') (test_file_path a w) = Some (File (generate ?src []))"
  | (ioerr) mk e where "out = Exit 1"
      "trace w' = (trace w @ [Analyze ?src]) @ mk @
         [Generate ?src [], OpenWrite (test_file_path a w),
          IOErrorRaised (test_file_path a w) e]"
    by blast
  then have c456: "(out = Exit 0 \<or> (\<exists>e. out = Uncaught e)
            \<or> (Generate ?src [] \<in> set (new_events w w')
                 \<and> OpenWrite (test_file_path a w) \<in> set (new_events w w')))
       \<and> (out = Exit 1 \<longrightarrow>
             (\<exists>e. IOErrorRaised (test_file_path a w) e \<in> set (new_events w w')))
       \<and> (out = Returned \<longrightarrow>
             lookup (root w') (test_file_path a w) = Some (File (generate ?src [])))"
  proof cases
    case crash
    then show ?thesis by simp
  next
    case skip
    then show ?thesis by simp
  next
    case wrote
    from wrote(2) have "new_events w w' = Analyze ?src # mk @
         [Generate ?src [], OpenWrite (test_file_path a w)]"
      by (simp add: new_events_def)
    with wrote(1,3) show ?thesis by simp
  next
    case ioerr
    from ioerr(2) have "new_events w w' = Analyze ?src # mk @
         [Generate ?src [], OpenWrite (test_file_path a w),
          IOErrorRaised (test_file_path a w) e]"
      by (simp add: new_events_def)
    with ioerr(1) show ?thesis by auto
  qed
  have c7: "((\<exists>es. lookup (root w) (out_path a w) = Some (Dir es))
              \<or> (lookup (root w) (out_path a w) = None
                   \<and> mkdir_refused w (out_path a w) = None
                   \<and> (\<exists>t. mkdir_parents (root w) (out_path a w) = Inr t)))
            \<and> (lookup (root w) (test_file_path a w) = None
                 \<or> (overwrite a \<and> is_file w (test_file_path a w)))
            \<and> write_refused w (test_file_path a w) = None
            \<and> write_fails w (test_file_path a w) = None
          \<longrightarrow> out = Returned \<and> exit_status out = 0"
  proof (intro impI, elim conjE)
    assume d: "(\<exists>es. lookup (root w) (out_path a w) = Some (Dir es))
              \<or> (lookup (root w) (out_path a w) = None
                   \<and> mkdir_refused w (out_path a w) = None
                   \<and> (\<exists>t. mkdir_parents (root w) (out_path a w) = Inr t))"
      and e: "lookup (root w) (test_file_path a w) = None
                 \<or> (overwrite a \<and> is_file w (test_file_path a w))"
      and x: "write_refused w (test_file_path a w) = None"
      and y: "write_fails w (test_file_path a w) = None"
    from d have d4: "(\<exists>es. lookup (root w4) (out_path a w4) = Some (Dir es))
              \<or> (lookup (root w4) (out_path a w4) = None
                   \<and> mkdir_refused w4 (out_path a w4) = None
                   \<and> (\<exists>t. mkdir_parents (root w4) (out_path a w4) = Inr t))"
      by (simp only: r o mr)
    from e have e4: "lookup (root w4) (test_file_path a w4) = None
                 \<or> (overwrite a \<and> is_file w4 (test_file_path a w4))"
      by (simp only: r p isf)
    from x have x4: "write_refused w4 (test_file_path a w4) = None" by (simp only: wr p)
    from y have y4: "write_fails w4 (test_file_path a w4) = None" by (simp only: wf p)
    from forge_output_succeeds [OF d4 e4 x4 y4, of generate "[]"] run
    have "out = Returned" by simp
    then show "out = Returned \<and> exit_status out = 0" by simp
  qed
  note c4 = conjunct1 [OF c456]
  note c5 = conjunct1 [OF conjunct2 [OF c456]]
  note c6 = conjunct2 [OF conjunct2 [OF c456]]
  show ?thesis
    apply (intro conjI)
          apply (rule c1)
         apply (rule c2)
        apply (rule c3)
       apply (rule c4)
      apply (rule c5)
     apply (rule c6)
    apply (rule c7)
    done
qed

theorem forge_filter_not_found_witness:
  "fst (forge alpha_beta pytest_header gamma_args (quiet_world fresh_tree [''proj''])) = Returned
   \<and> Generate [''proj'', ''m.py''] []
       \<in> set (new_events (quiet_world fresh_tree [''proj''])
           (snd (forge alpha_beta pytest_header gamma_args (quiet_world fresh_tree [''proj'']))))
   \<and> lookup (root (snd (forge alpha_beta pytest_header gamma_args
                          (quiet_world fresh_tree [''proj''])))) [''proj'', ''tests'', ''test_m.py'']
       = Some (File ''import pytest'')
   \<and> (\<exists>rest. stdout (snd (forge alpha_beta pytest_header gamma_args
                              (quiet_world fresh_tree [''proj''])))
         = (Some YELLOW, FunctionNotFound ''gamma'') # rest)"
proof -
  let ?a = gamma_args
  let ?w = "quiet_world fresh_tree [''proj'']"
  let ?r = "forge alpha_beta pytest_header ?a ?w"
  have 1: "path_exists ?w (source_file ?a)"
    by (simp add: path_exists_def sample_defs gamma_args_def)
  have 2: "is_file ?w (source_file ?a)"
    by (simp add: is_file_def sample_defs gamma_args_def)
  have 3: "alpha_beta (root ?w) (source_file ?a) = Inr [alpha, beta]"
    by (simp add: alpha_beta_def)
  have 4: "function_name ?a = Some ''gamma''" by (simp add: gamma_args_def)
  have 5: "''gamma'' \<noteq> []" by simp
  have 6: "\<forall>f \<in> set [alpha, beta]. name f \<noteq> ''gamma''"
    by (simp add: alpha_def beta_def)
  have 7: "?r = (fst ?r, snd ?r)" by simp
  have s: "source_file ?a = [''proj'', ''m.py'']"
    by (simp add: gamma_args_def sample_args_def)
  have o: "out_path ?a ?w = [''proj'', ''tests'']"
    by (simp add: out_path_def gamma_args_def sample_defs)
  have t: "test_file_path ?a ?w = [''proj'', ''tests'', ''test_m.py'']"
    by (simp add: path_defs gamma_args_def sample_defs)
  have v: "\<not> verbose ?a" by (simp add: gamma_args_def sample_args_def)
  have d: "lookup (root ?w) [''proj'', ''tests''] = Some (Dir [])"
    by (simp add: sample_defs)
  have e: "lookup (root ?w) [''proj'', ''tests'', ''test_m.py''] = None"
    by (simp add: sample_defs)
  have x: "write_refused ?w [''proj'', ''tests'', ''test_m.py''] = None"
    "write_fails ?w [''proj'', ''tests'', ''test_m.py''] = None"
    by (simp_all add: quiet_world_def)
  note c = forge_filter_not_found [OF 1 2 3 4 5 6 7, unfolded s o t]
  from c d e x have ret: "fst ?r = Returned" by simp
  from c ret have gen: "Generate [''proj'', ''m.py''] [] \<in> set (new_events ?w (snd ?r))"
    by simp
  from c ret have "lookup (root (snd ?r)) [''proj'', ''tests'', ''test_m.py'']
       = Some (File (pytest_header [''proj'', ''m.py''] []))"
    by simp
  then have fil: "lookup (root (snd ?r)) [''proj'', ''tests'', ''test_m.py'']
       = Some (File ''import pytest'')"
    by (simp add: pytest_header_def)
  from c v have "\<exists>rest. stdout (snd ?r) = stdout ?w @ [(Some YELLOW, FunctionNotFound ''gamma'')] @ rest"
    by simp
  then have war: "\<exists>rest. stdout (snd ?r) = (Some YELLOW, FunctionNotFound ''gamma'') # rest"
    by (simp add: quiet_world_def)
  show ?thesis
    apply (intro conjI)
       apply (rule ret)
      apply (rule gen)
     apply (rule fil)
    apply (rule war)
    done
qed

section \<open>The source analyzer: what is extracted\<close>

lemma length_visit_class:
  "length (visit ClassScope s) = (if is_function_definition s then 1 else 0)"
  by (cases s) simp_all

lemma length_visit_class_body:
  "length (concat (map (visit ClassScope) body)) = length (filter is_function_definition body)"
  by (induction body) (simp_all add: length_visit_class)

lemma length_visit_module:
  "length (visit ModuleScope s)
     = (if is_function_definition s then 1 else 0) + length (methods_of s)"
  by (cases s) (simp_all add: length_visit_class_body)

lemma length_visit_module_body:
  "length (visit_module body)
     = length (module_level_functions body) + length (class_methods body)"
  unfolding visit_module_def module_level_functions_def class_methods_def
  by (induction body) (simp_all add: length_visit_module)

lemma get_docstring_only: "get_docstring (docstring_only body) = get_docstring body"
  by (induction body rule: docstring_only.induct) simp_all

lemma visit_class_erase: "visit ClassScope (erase_nested s) = visit ClassScope s"
  by (cases s) (simp_all add: describe_def get_docstring_only)

lemma visit_module_erase: "visit ModuleScope (erase_nested s) = visit ModuleScope s"
  by (cases s) (simp_all add: describe_def get_docstring_only visit_class_erase comp_def)

lemma visit_module_body_erase: "visit_module (map erase_nested body) = visit_module body"
  by (simp add: visit_module_def visit_module_erase comp_def)

text \<open>
  A syntax error aborts the analysis: the result is the parser's diagnostic, unchanged,
  and no descriptor.
\<close>

lemma extract_functions_syntax_error:
  assumes "lookup t p = Some (File content)" and "parse content = Inl d"
  shows "extract_functions parse t p = Inl (ParseError d)"
  using assms by (simp add: extract_functions_def)

text \<open>
  C6. For a source file whose text parses, \<^verbatim>\<open>extract_functions\<close> returns a sequence
  whose length is the number of function definitions at module level plus the number
  of method definitions directly in the classes of the module, and the sequence is
  the one obtained from the module with the bodies of all definitions erased: a
  function nested in a function is never emitted.
\<close>

theorem extract_functions_count:
  assumes "lookup t p = Some (File content)" and "parse content = Inr body"
  shows "\<exists>ds. extract_functions parse t p = Inr ds
           \<and> length ds = length (module_level_functions body) + length (class_methods body)
           \<and> ds = visit_module (map erase_nested body)"
  using assms
  by (simp add: extract_functions_def length_visit_module_body visit_module_body_erase)

theorem extract_functions_count_witness:
  "lookup f_tree [''proj'', ''n.py''] = Some (File nested_source)
   \<and> length (module_level_functions nested_module) + length (class_methods nested_module) = 2
   \<and> (\<exists>ds. extract_functions sample_parse f_tree [''proj'', ''n.py''] = Inr ds
         \<and> length ds = 2 \<and> map name ds = [''outer'', ''m''])"
proof -
  have 1: "lookup f_tree [''proj'', ''n.py''] = Some (File nested_source)"
    by (simp add: f_tree_def)
  have 2: "sample_parse nested_source = Inr nested_module"
    by (simp add: sample_parse_def nested_source_def)
  have 3: "length (module_level_functions nested_module)
             + length (class_methods nested_module) = 2"
    by (simp add: module_level_functions_def class_methods_def nested_module_def)
  from extract_functions_count [of f_tree "[''proj'', ''n.py'']" nested_source sample_parse,
      OF 1 2]
  obtain ds where ds: "extract_functions sample_parse f_tree [''proj'', ''n.py''] = Inr ds"
    "length ds = length (module_level_functions nested_module)
                   + length (class_methods nested_module)"
    "ds = visit_module (map erase_nested nested_module)"
    by (elim exE conjE)
  from ds(2) 3 have l: "length ds = 2" by simp
  from ds(3) have n: "map name ds = [''outer'', ''m'']"
    by (simp add: visit_module_def nested_module_def describe_def)
  show ?thesis
    apply (intro conjI exI [of _ ds])
        apply (rule 1)
       apply (rule 3)
      apply (rule ds(1))
     apply (rule l)
    apply (rule n)
    done
qed

text \<open>
  C8. For the declaration \<^verbatim>\<open>def f(a, b=1, *args, c, **kw)\<close>, whose tree is
  \<open>declaration_f\<close>, \<^verbatim>\<open>extract_functions\<close> yields one descriptor with exactly five
  parameters, of the kinds positional-or-keyword, positional-or-keyword,
  var-positional, keyword-only, var-keyword in this order, and only \<^verbatim>\<open>b\<close> has a
  default.
\<close>

theorem extract_functions_parameters:
  assumes "lookup t p = Some (File content)" and "parse content = Inr [declaration_f]"
  shows "\<exists>d. extract_functions parse t p = Inr [d]
           \<and> length (parameters d) = 5
           \<and> map p_kind (parameters d)
               = [PositionalOrKeyword, PositionalOrKeyword, VarPositional, KeywordOnly,
                  VarKeyword]
           \<and> map p_name (parameters d) = [''a'', ''b'', ''args'', ''c'', ''kw'']
           \<and> map p_default (parameters d) = [None, Some ''1'', None, None, None]"
  using assms
  by (simp add: extract_functions_def visit_module_def declaration_f_def describe_def
      extract_parameters_def positional_defaults_def parameter_def Let_def)

theorem extract_functions_parameters_witness:
  "lookup f_tree [''proj'', ''f.py''] = Some (File ''def f(a, b=1, *args, c, **kw): pass'')
   \<and> (\<exists>d. extract_functions sample_parse f_tree [''proj'', ''f.py''] = Inr [d]
         \<and> map p_kind (parameters d)
             = [PositionalOrKeyword, PositionalOrKeyword, VarPositional, KeywordOnly,
                VarKeyword]
         \<and> map p_default (parameters d) = [None, Some ''1'', None, None, None])"
proof -
  have 1: "lookup f_tree [''proj'', ''f.py'']
             = Some (File ''def f(a, b=1, *args, c, **kw): pass'')"
    by (simp add: f_tree_def)
  have 2: "sample_parse ''def f(a, b=1, *args, c, **kw): pass'' = Inr [declaration_f]"
    by (simp add: sample_parse_def)
  from extract_functions_parameters
         [of f_tree "[''proj'', ''f.py'']" "''def f(a, b=1, *args, c, **kw): pass''"
             sample_parse, OF 1 2]
  obtain d where d: "extract_functions sample_parse f_tree [''proj'', ''f.py''] = Inr [d]"
    "map p_kind (parameters d)
       = [PositionalOrKeyword, PositionalOrKeyword, VarPositional, KeywordOnly, VarKeyword]"
    "map p_default (parameters d) = [None, Some ''1'', None, None, None]"
    by (elim exE conjE)
  show ?thesis
    apply (intro conjI exI [of _ d])
       apply (rule 1)
      apply (rule d(1))
     apply (rule d(2))
    apply (rule d(3))
    done
qed

text \<open>
  The descriptors stand in the order of the definitions in the source text.
\<close>

lemma visit_class_names:
  "map name (concat (map (visit ClassScope) body))
     = map definition_name (filter is_function_definition body)"
  "map lineno (concat (map (visit ClassScope) body))
     = map definition_line (filter is_function_definition body)"
proof (induction body)
  case Nil
  { case 1 show ?case by simp }
  { case 2 show ?case by simp }
next
  case (Cons s body)
  { case 1 with Cons show ?case by (cases s) (simp_all add: describe_def) }
  { case 2 with Cons show ?case by (cases s) (simp_all add: describe_def) }
qed

lemma visit_module_names:
  "map name (visit ModuleScope s)
     = map definition_name (if is_function_definition s then [s] else methods_of s)"
  "map lineno (visit ModuleScope s)
     = map definition_line (if is_function_definition s then [s] else methods_of s)"
  by (cases s; simp add: describe_def visit_class_names)+

lemma visit_module_in_order:
  "map name (visit_module body) = map definition_name (definitions_in_order body)"
  "map lineno (visit_module body) = map definition_line (definitions_in_order body)"
  unfolding visit_module_def definitions_in_order_def
  by (induction body) (simp_all add: visit_module_names del: visit.simps)

text \<open>
  C9. Two invocations of \<^verbatim>\<open>extract_functions\<close> on the same path, the content at
  the path being after the first what it is before the second, return the same
  result; an invocation leaves the file tree as it is; when both return descriptors
  the two sequences have the same length and are equal element by element. The order
  is the one of the source text: the names and the lines of the descriptors are those
  of the definitions of the parsed text in the order they stand there, so the
  descriptors come in increasing line when the definitions do.
\<close>

theorem extract_functions_idempotent:
  assumes "call_extract_functions parse p w = (r1, w1)"
    and "lookup (root w1') p = lookup (root w1) p"
    and "call_extract_functions parse p w1' = (r2, w2)"
  shows "r2 = r1 \<and> root w1 = root w \<and> root w2 = root w1'
       \<and> (\<forall>ds1 ds2. r1 = Inr ds1 \<and> r2 = Inr ds2
            \<longrightarrow> length ds2 = length ds1 \<and> (\<forall>i < length ds1. ds2 ! i = ds1 ! i))
       \<and> (\<forall>content body. lookup (root w) p = Some (File content) \<and> parse content = Inr body
            \<longrightarrow> (\<exists>ds. r1 = Inr ds
                   \<and> map name ds = map definition_name (definitions_in_order body)
                   \<and> map lineno ds = map definition_line (definitions_in_order body)
                   \<and> (sorted_wrt (<) (map definition_line (definitions_in_order body))
                        \<longrightarrow> sorted_wrt (\<lambda>d e. lineno d < lineno e) ds)))"
proof -
  from assms(1) have r1: "r1 = extract_functions parse (root w) p" and w1: "root w1 = root w"
    by (auto simp add: call_extract_functions_def)
  from assms(3) have r2: "r2 = extract_functions parse (root w1') p" and w2: "root w2 = root w1'"
    by (auto simp add: call_extract_functions_def)
  from assms(2) w1 have "lookup (root w1') p = lookup (root w) p" by simp
  with r1 r2 have eq: "r2 = r1" by (simp add: extract_functions_def)
  have el: "\<forall>ds1 ds2. r1 = Inr ds1 \<and> r2 = Inr ds2
            \<longrightarrow> length ds2 = length ds1 \<and> (\<forall>i < length ds1. ds2 ! i = ds1 ! i)"
    using eq by auto
  have ord: "\<forall>content body. lookup (root w) p = Some (File content) \<and> parse content = Inr body
            \<longrightarrow> (\<exists>ds. r1 = Inr ds
                   \<and> map name ds = map definition_name (definitions_in_order body)
                   \<and> map lineno ds = map definition_line (definitions_in_order body)
                   \<and> (sorted_wrt (<) (map definition_line (definitions_in_order body))
                        \<longrightarrow> sorted_wrt (\<lambda>d e. lineno d < lineno e) ds))"
  proof (intro allI impI, elim conjE)
    fix content body
    assume c: "lookup (root w) p = Some (File content)" and b: "parse content = Inr body"
    from c b r1 have 1: "r1 = Inr (visit_module body)" by (simp add: extract_functions_def)
    have 2: "sorted_wrt (<) (map definition_line (definitions_in_order body))
               \<longrightarrow> sorted_wrt (\<lambda>d e. lineno d < lineno e) (visit_module body)"
      by (simp add: visit_module_in_order(2) [symmetric] sorted_wrt_map)
    show "\<exists>ds. r1 = Inr ds
                   \<and> map name ds = map definition_name (definitions_in_order body)
                   \<and> map lineno ds = map definition_line (definitions_in_order body)
                   \<and> (sorted_wrt (<) (map definition_line (definitions_in_order body))
                        \<longrightarrow> sorted_wrt (\<lambda>d e. lineno d < lineno e) ds)"
      apply (rule exI [of _ "visit_module body"])
      apply (intro conjI)
         apply (rule 1)
        apply (rule visit_module_in_order(1))
       apply (rule visit_module_in_order(2))
      apply (rule 2)
      done
  qed
  show ?thesis
    apply (intro conjI)
        apply (rule eq)
       apply (rule w1)
      apply (rule w2)
     apply (rule el)
    apply (rule ord)
    done
qed

theorem extract_functions_idempotent_witness:
  "fst (call_extract_functions sample_parse [''proj'', ''n.py'']
          (snd (call_extract_functions sample_parse [''proj'', ''n.py'']
                  (quiet_world f_tree [''proj'']))))
     = fst (call_extract_functions sample_parse [''proj'', ''n.py'']
              (quiet_world f_tree [''proj'']))
   \<and> (\<exists>ds. fst (call_extract_functions sample_parse [''proj'', ''n.py'']
                  (quiet_world f_tree [''proj''])) = Inr ds
         \<and> map name ds = [''outer'', ''m''] \<and> map lineno ds = [1, 4]
         \<and> sorted_wrt (\<lambda>d e. lineno d < lineno e) ds)"
proof -
  let ?p = "[''proj'', ''n.py'']"
  let ?w = "quiet_world f_tree [''proj'']"
  let ?c1 = "call_extract_functions sample_parse ?p ?w"
  let ?c2 = "call_extract_functions sample_parse ?p (snd ?c1)"
  have 1: "?c1 = (fst ?c1, snd ?c1)" by simp
  have 2: "lookup (root (snd ?c1)) ?p = lookup (root (snd ?c1)) ?p" by (rule refl)
  have 3: "?c2 = (fst ?c2, snd ?c2)" by simp
  have 4: "lookup (root ?w) ?p = Some (File nested_source)"
    by (simp add: quiet_world_def f_tree_def)
  have 5: "sample_parse nested_source = Inr nested_module"
    by (simp add: sample_parse_def nested_source_def)
  have 6: "map definition_name (definitions_in_order nested_module) = [''outer'', ''m'']"
    by (simp add: definitions_in_order_def nested_module_def)
  have 7: "map definition_line (definitions_in_order nested_module) = [1, 4]"
    by (simp add: definitions_in_order_def nested_module_def)
  note t = extract_functions_idempotent [OF 1 2 3]
  from t have a: "fst ?c2 = fst ?c1" by (rule conjunct1)
  from t 4 5 obtain ds where ds: "fst ?c1 = Inr ds"
    "map name ds = map definition_name (definitions_in_order nested_module)"
    "map lineno ds = map definition_line (definitions_in_order nested_module)"
    "sorted_wrt (<) (map definition_line (definitions_in_order nested_module))
       \<longrightarrow> sorted_wrt (\<lambda>d e. lineno d < lineno e) ds"
    by blast
  from ds(4) have s: "sorted_wrt (\<lambda>d e. lineno d < lineno e) ds" by (simp add: 7)
  from ds(2) have n: "map name ds = [''outer'', ''m'']" by (simp only: 6)
  from ds(3) have l: "map lineno ds = [1, 4]" by (simp only: 7)
  show ?thesis
    apply (intro conjI exI [of _ ds])
        apply (rule a)
       apply (rule ds(1))
      apply (rule n)
     apply (rule l)
    apply (rule s)
    done
qed

section \<open>The names of the generated tests: collisions\<close>

declare decimal.simps [simp del]

lemma length_test_names_from: "length (test_names_from seen ds) = length ds"
  by (induction ds arbitrary: seen) (simp_all add: Let_def)

lemma test_names_from_nth:
  "i < length ds \<Longrightarrow>
   test_names_from seen ds ! i
     = numbered (''test_'' @ name (ds ! i))
         (seen (name (ds ! i)) + count_list (map name (take (Suc i) ds)) (name (ds ! i)))"
proof (induction ds arbitrary: seen i)
  case Nil
  then show ?case by simp
next
  case (Cons d ds)
  show ?case
  proof (cases i)
    case 0
    then show ?thesis by (simp add: Let_def)
  next
    case (Suc j)
    with Cons.prems have j: "j < length ds" by simp
    let ?seen = "seen(name d := seen (name d) + 1)"
    have "test_names_from seen (d # ds) ! i = test_names_from ?seen ds ! j"
      using Suc by (simp add: Let_def)
    also have "\<dots> = numbered (''test_'' @ name (ds ! j))
         (?seen (name (ds ! j)) + count_list (map name (take (Suc j) ds)) (name (ds ! j)))"
      by (rule Cons.IH [OF j])
    also have "?seen (name (ds ! j)) + count_list (map name (take (Suc j) ds)) (name (ds ! j))
         = seen (name ((d # ds) ! i))
             + count_list (map name (take (Suc i) (d # ds))) (name ((d # ds) ! i))"
      using Suc by simp
    finally show ?thesis using Suc by simp
  qed
qed

lemma test_names_from_append:
  "\<exists>rest. test_names_from seen (ds @ es) = test_names_from seen ds @ rest"
  by (induction ds arbitrary: seen) (simp_all add: Let_def)

lemma decimal_2: "decimal 2 = ''2''"
  by (subst decimal.simps) (simp add: digit_def)

lemma decimal_Suc_Suc_0: "decimal (Suc (Suc 0)) = ''2''"
  using decimal_2 by (simp add: numeral_2_eq_2)

lemma test_names_run_run_load:
  assumes "map name ds = [''run'', ''run'', ''load'']"
  shows "test_names ds = [''test_run'', ''test_run_2'', ''test_load'']"
proof -
  from assms obtain a b c where ds: "ds = [a, b, c]"
    and n: "name a = ''run''" "name b = ''run''" "name c = ''load''"
    by (auto simp add: map_eq_Cons_conv)
  show ?thesis
    by (simp add: ds n test_names_def Let_def numbered_def decimal_2 decimal_Suc_Suc_0)
qed

text \<open>
  C7. \<^verbatim>\<open>generate_test_content\<close> gives one test name for each descriptor, in
  descriptor order: \<^verbatim>\<open>test_\<close> and the callable's name for the first descriptor of
  that name, and with the suffix \<^verbatim>\<open>_k\<close> for the \<open>k\<close>-th one. The names given to a
  sequence do not change when descriptors are appended to it. Descriptors named run,
  run, load get the names test_run, test_run_2, test_load.
\<close>

theorem test_names_collisions:
  "length (test_names ds) = length ds
   \<and> (\<forall>i. i < length ds \<longrightarrow>
         test_names ds ! i =
           (if occurrence ds i = 1 then ''test_'' @ name (ds ! i)
            else ''test_'' @ name (ds ! i) @ ''_'' @ decimal (occurrence ds i)))
   \<and> take (length ds) (test_names (ds @ es)) = test_names ds
   \<and> (map name ds = [''run'', ''run'', ''load'']
        \<longrightarrow> test_names ds = [''test_run'', ''test_run_2'', ''test_load''])"
proof -
  have l: "length (test_names ds) = length ds"
    by (simp add: test_names_def length_test_names_from)
  have n: "\<forall>i. i < length ds \<longrightarrow>
         test_names ds ! i =
           (if occurrence ds i = 1 then ''test_'' @ name (ds ! i)
            else ''test_'' @ name (ds ! i) @ ''_'' @ decimal (occurrence ds i))"
    by (simp add: test_names_def test_names_from_nth occurrence_def numbered_def)
  obtain rest where "test_names (ds @ es) = test_names ds @ rest"
    unfolding test_names_def using test_names_from_append by blast
  with l have t: "take (length ds) (test_names (ds @ es)) = test_names ds" by simp
  have r: "map name ds = [''run'', ''run'', ''load'']
        \<longrightarrow> test_names ds = [''test_run'', ''test_run_2'', ''test_load'']"
    by (rule impI) (rule test_names_run_run_load)
  show ?thesis
    apply (intro conjI)
       apply (rule l)
      apply (rule n)
     apply (rule t)
    apply (rule r)
    done
qed

theorem test_names_collisions_witness:
  "(1::nat) < length [named ''run'', named ''run'', named ''load'']
   \<and> occurrence [named ''run'', named ''run'', named ''load''] 1 = 2
   \<and> test_names [named ''run'', named ''run'', named ''load''] ! 1 = ''test_run_2''
   \<and> test_names [named ''run'', named ''run'', named ''load'']
       = [''test_run'', ''test_run_2'', ''test_load'']"
proof -
  have o: "occurrence [named ''run'', named ''run'', named ''load''] 1 = 2"
    by (simp add: occurrence_def named_def)
  have m: "map name [named ''run'', named ''run'', named ''load'']
             = [''run'', ''run'', ''load'']"
    by (simp add: named_def)
  from test_names_collisions [of "[named ''run'', named ''run'', named ''load'']" "[]"] o m
  show ?thesis by (simp add: decimal_2)
qed

end
